theory Spec2Isabelle
  imports Main "HOL-Library.Sublist"
begin

section \<open>Strings\<close>

text \<open>
  A JavaScript string is modelled as a \<open>char list\<close>: one \<open>char\<close> per code unit, for the
  code units below 256 (Latin-1). \<open>String.prototype.trim\<close> and the regular expression
  class \<open>\s\<close> strip the white space and line terminator characters; below 256 these are
  TAB, LF, VT, FF, CR, SPACE and NBSP. \<open>toLowerCase\<close> maps A-Z and the Latin-1 capitals
  (0xC0-0xDE without the multiplication sign 0xD7) to the letter 32 positions later, which
  is the same code unit with bit 5 set.
\<close>

definition isWhiteSpace :: "char \<Rightarrow> bool" where
  "isWhiteSpace c \<longleftrightarrow>
     c \<in> {CHR 0x09, CHR 0x0A, CHR 0x0B, CHR 0x0C, CHR 0x0D, CHR 0x20, CHR 0xA0}"

definition trim :: "string \<Rightarrow> string" where
  "trim s = rev (dropWhile isWhiteSpace (rev (dropWhile isWhiteSpace s)))"

definition isUpperChar :: "char \<Rightarrow> bool" where
  "isUpperChar c =
     (let n = (of_char c :: nat)
      in (65 \<le> n \<and> n \<le> 90) \<or> (192 \<le> n \<and> n \<le> 222 \<and> n \<noteq> 215))"

definition toLowerChar :: "char \<Rightarrow> char" where
  "toLowerChar c =
     (if isUpperChar c
      then (case c of Char b0 b1 b2 b3 b4 b5 b6 b7 \<Rightarrow> Char b0 b1 b2 b3 b4 True b6 b7)
      else c)"

definition toLowerCase :: "string \<Rightarrow> string" where
  "toLowerCase s = map toLowerChar s"

section \<open>The narrator engine (FRT)\<close>

datatype stage = stage_none | stage_boot | stage_script

datatype track = tr_intro | tr_model | tr_system_prompt | tr_context | tr_memory

datatype gate_kind = chat_any | chat_repeat | final_review_confirm

datatype hook =
    SHOW_MODEL_LOADER_RAIL
  | ENABLE_SPLIT_CHAT
  | SWAP_PROMPT_PIRATE
  | SWAP_PROMPT_DEFAULT
  | LAUNCH_SYSTEM_PROMPT_RPG
  | LOAD_CONTEXT_PACKET
  | SHOW_FINAL_REVIEW
  | DISABLE_SPLIT_CHAT

text \<open>
  \<open>FRT.requiredAction\<close>. The object literal that initialises it has no \<open>soft_after\<close>
  property: the field is \<open>undefined\<close> (here \<open>None\<close>) until a part with a gate is rendered.
\<close>

record required_action =
  kind :: "gate_kind option"
  satisfied :: bool
  attempts :: nat
  baselineQuestion :: "string option"
  soft_after :: "nat option"

text \<open>The \<open>requires\<close> descriptor of a part: \<open>{ kind, soft_after? }\<close>.\<close>

record requires =
  req_kind :: gate_kind
  req_soft_after :: "nat option"

text \<open>
  A part of a track, as far as navigation reads it: its entry hook, its gate, and whether
  its step list holds a step that \<open>renderPart\<close> awaits (a typed line, a list item, a
  pause). The steps and the deterrent lines of a part are narration text that neither the
  forward handler nor the gate logic looks at; they are modelled further down
  (\<open>part_content\<close>), where the name substitution and the typewriter consume them. Every
  part of the script has a typed line, but for part 10 of the \<open>system_prompt\<close> track,
  whose step list is empty.
\<close>

record part =
  onEnter :: "hook option"
  requires :: "requires option"
  awaits :: bool

definition plain :: part where
  "plain = \<lparr>onEnter = None, requires = None, awaits = True\<rparr>"

definition hooked :: "hook \<Rightarrow> part" where
  "hooked h = \<lparr>onEnter = Some h, requires = None, awaits = True\<rparr>"

text \<open>\<open>FRT.scripts\<close>: index 0 of every track is \<open>null\<close>.\<close>

fun scripts :: "track \<Rightarrow> part option list" where
  "scripts tr_intro = [None, Some plain, Some plain, Some plain, Some plain, Some plain]"
| "scripts tr_model =
     [None, Some plain, Some plain, Some plain, Some (hooked SHOW_MODEL_LOADER_RAIL)]"
| "scripts tr_system_prompt =
     [None, Some plain, Some plain, Some plain,
      Some \<lparr>onEnter = Some ENABLE_SPLIT_CHAT,
            requires = Some \<lparr>req_kind = chat_any, req_soft_after = None\<rparr>,
            awaits = True\<rparr>,
      Some plain,
      Some (hooked SWAP_PROMPT_PIRATE),
      Some \<lparr>onEnter = None,
            requires = Some \<lparr>req_kind = chat_repeat, req_soft_after = Some 2\<rparr>,
            awaits = True\<rparr>,
      Some (hooked SWAP_PROMPT_DEFAULT),
      Some plain,
      Some \<lparr>onEnter = Some LAUNCH_SYSTEM_PROMPT_RPG, requires = None, awaits = False\<rparr>,
      Some (hooked DISABLE_SPLIT_CHAT),
      Some plain]"
| "scripts tr_context =
     [None, Some plain, Some plain, Some (hooked LOAD_CONTEXT_PACKET), Some plain]"
| "scripts tr_memory =
     [None, Some plain, Some plain, Some plain, Some plain,
      Some \<lparr>onEnter = Some SHOW_FINAL_REVIEW,
            requires = Some \<lparr>req_kind = final_review_confirm, req_soft_after = None\<rparr>,
            awaits = True\<rparr>]"

definition TUTORIAL_PROMPT_PIRATE :: string where
  "TUTORIAL_PROMPT_PIRATE = ''You are a friendly pirate assistant. Speak like a pirate in your responses, using phrases like 'ahoy', 'matey', and 'arr', but remain helpful and accurate in your information.''"

definition TUTORIAL_PROMPT_DEFAULT :: string where
  "TUTORIAL_PROMPT_DEFAULT = ''You are a helpful AI assistant. Provide clear, accurate, and friendly responses.''"

text \<open>
  Values read back from the staging store by \<open>JSON.parse\<close>. An object is the list of its
  entries in the order \<open>Object.entries\<close> enumerates them.
\<close>

datatype json =
    JNull | JBool bool | JNum int | JStr string | JArr "json list"
  | JObj "(string \<times> json) list"

text \<open>The body of the request to the commit endpoint.\<close>

record commit_payload =
  system_prompt :: string
  tier_a :: "(string \<times> json) list"
  tier_b :: "(string \<times> json) list"
  defaults :: json
  tutorial_completed :: bool

text \<open>
  The caption of a button: the text it had when the page was loaded, or one of the two
  captions the handlers put on it while saving and after saving.
\<close>

datatype button_label = Caption string | SAVING | SAVED

text \<open>
  The state the engine and its collaborators share: the fields of \<open>FRT\<close>, the class list of
  \<open>document.body\<close>, the lock class of the navigation bar, the display of the tutorial
  overlay, the persistent first-run flag of \<open>localStorage\<close>, and the part of the global
  \<open>state\<close> object that the tutorial chat reads and writes, and what the final review
  touches: the staging store \<open>sessionStorage\<close>, the confirm button, the inline error
  element (which the page may or may not have), the alerts raised, the requests sent to the
  commit endpoint, and whether the delayed call of \<open>endTutorial\<close> is armed. Then what
  the wizard touches when its prompt is saved: its display (\<open>rpgShown\<close>: the wizard is on
  the screen, with its questions or with the review of the prompt), its save button, the
  name kept in \<open>window.userPreferredName\<close>, and whether the delayed return to the narrator
  is armed.
  Last, \<open>inFlight\<close>: the calls of \<open>renderPart\<close> that are suspended at an awaited step,
  oldest first, each with the index and the part it holds in its local variables. The other
  timers and the transient asides of \<open>showOptional\<close> are display only and are left out.
\<close>

record app =
  stage :: stage
  track :: track
  partIndex :: nat
  isTyping :: bool
  skipRequested :: bool
  requiredAction :: required_action
  navLocked :: bool
  bodyClasses :: "string list"
  overlayShown :: bool
  firstRunComplete :: bool
  tutorialHistory :: "(string \<times> string) list"
  isGenerating :: bool
  tutorialSystemPromptId :: string
  tutorialSystemPromptText :: string
  rpgShown :: bool
  hasFinalReviewOverlay :: bool
  finalReviewShown :: bool
  sessionStorage :: "string \<rightharpoonup> string"
  confirmDisabled :: bool
  confirmText :: button_label
  hasFinalReviewError :: bool
  finalReviewErrorText :: string
  finalReviewErrorShown :: bool
  alerts :: "string list"
  endTutorialScheduled :: bool
  commits :: "commit_payload list"
  usePromptDisabled :: bool
  usePromptText :: button_label
  window_userPreferredName :: string
  handBackScheduled :: bool
  inFlight :: "(nat \<times> part) list"

definition classList_add :: "string \<Rightarrow> string list \<Rightarrow> string list" where
  "classList_add c cs = (if c \<in> set cs then cs else cs @ [c])"

definition classList_remove :: "string \<Rightarrow> string list \<Rightarrow> string list" where
  "classList_remove c cs = filter (\<lambda>x. x \<noteq> c) cs"

definition getTrack :: "app \<Rightarrow> part option list" where
  "getTrack s = scripts (track s)"

definition getMaxPart :: "app \<Rightarrow> nat" where
  "getMaxPart s = length (getTrack s) - 1"

text \<open>\<open>track[index]\<close>: \<open>undefined\<close> out of range and \<open>null\<close> at index 0 are both falsy.\<close>

definition lookup_part :: "app \<Rightarrow> nat \<Rightarrow> part option" where
  "lookup_part s index =
     (if index < length (getTrack s) then getTrack s ! index else None)"

text \<open>
  \<open>handleNarratorHook\<close>, on the state modelled here. The staged transition of
  \<open>LAUNCH_SYSTEM_PROMPT_RPG\<close> is three nested timers; the model keeps their joint effect
  (the transition classes are added and removed again, the wizard is shown).
  \<open>LOAD_CONTEXT_PACKET\<close> only fills a placeholder element.
\<close>

fun handleNarratorHook :: "hook \<Rightarrow> app \<Rightarrow> app" where
  "handleNarratorHook SHOW_MODEL_LOADER_RAIL s =
     (let cs = classList_add ''frt-pulse-model''
                 (classList_add ''frt-with-rail''
                   (classList_add ''frt-allow-right-rail'' (bodyClasses s)))
      in s\<lparr>bodyClasses :=
             (if ''frt-right-sidebar-unlocked'' \<in> set cs then cs
              else classList_remove ''frt-allow-right-sidebar'' cs)\<rparr>)"
| "handleNarratorHook ENABLE_SPLIT_CHAT s =
     s\<lparr>bodyClasses :=
          classList_remove ''frt-split''
            (classList_add ''frt-split-with-chat'' (bodyClasses s)),
       tutorialHistory := []\<rparr>"
| "handleNarratorHook SWAP_PROMPT_PIRATE s =
     s\<lparr>tutorialSystemPromptId := ''pirate'',
       tutorialSystemPromptText := TUTORIAL_PROMPT_PIRATE\<rparr>"
| "handleNarratorHook SWAP_PROMPT_DEFAULT s =
     s\<lparr>tutorialSystemPromptId := ''default'',
       tutorialSystemPromptText := TUTORIAL_PROMPT_DEFAULT\<rparr>"
| "handleNarratorHook LAUNCH_SYSTEM_PROMPT_RPG s = s\<lparr>rpgShown := True\<rparr>"
| "handleNarratorHook LOAD_CONTEXT_PACKET s = s"
| "handleNarratorHook SHOW_FINAL_REVIEW s =
     (if hasFinalReviewOverlay s then s\<lparr>finalReviewShown := True\<rparr> else s)"
| "handleNarratorHook DISABLE_SPLIT_CHAT s =
     s\<lparr>bodyClasses :=
          classList_add ''is-dimmed''
            (classList_add ''frt-split''
              (classList_remove ''frt-split-with-chat'' (bodyClasses s))),
       tutorialHistory := []\<rparr>"

text \<open>
  \<open>renderPart\<close> is asynchronous. \<open>renderPart_begin\<close> is what it does before the first
  step is awaited, \<open>renderPart_finish\<close> what it does once the last step has resolved
  (its tail). The tail reads the part from the local variable of its own call, and the
  track and the play-head from \<open>FRT\<close> as they are by then.
  \<open>setNavEnabled(false)\<close> puts the lock class on the navigation bar and
  \<open>setNavEnabled(true)\<close> takes it off.
\<close>

definition renderPart_begin :: "nat \<Rightarrow> part \<Rightarrow> app \<Rightarrow> app" where
  "renderPart_begin index p s =
     (let s1 = s\<lparr>partIndex := index, isTyping := True, skipRequested := False,
                 navLocked := True\<rparr>
      in case onEnter p of None \<Rightarrow> s1 | Some h \<Rightarrow> handleNarratorHook h s1)"

text \<open>\<open>part.requires.soft_after || 999\<close>: a missing or zero threshold becomes 999.\<close>

definition soft_after_of :: "requires \<Rightarrow> nat" where
  "soft_after_of r =
     (case req_soft_after r of None \<Rightarrow> 999 | Some n \<Rightarrow> if n = 0 then 999 else n)"

definition renderPart_finish :: "part \<Rightarrow> app \<Rightarrow> app" where
  "renderPart_finish p s =
     (let s1 = s\<lparr>isTyping := False, skipRequested := False, navLocked := False\<rparr>;
          s2 = (case requires p of
                  Some r \<Rightarrow>
                    s1\<lparr>requiredAction :=
                         (requiredAction s1)\<lparr>kind := Some (req_kind r), satisfied := False,
                           attempts := 0, baselineQuestion := None,
                           soft_after := Some (soft_after_of r)\<rparr>,
                       navLocked := True\<rparr>
                | None \<Rightarrow>
                    s1\<lparr>requiredAction :=
                         (requiredAction s1)\<lparr>kind := None, satisfied := True,
                           attempts := 0, baselineQuestion := None\<rparr>,
                       navLocked := False\<rparr>)
      in if track s2 = tr_model \<and> partIndex s2 = 4 then s2\<lparr>navLocked := True\<rparr> else s2)"

text \<open>
  A call of \<open>renderPart\<close>, up to the point where it gives control back. When the part has
  a step to await, the call is suspended there with \<open>FRT.isTyping\<close> true: it joins
  \<open>inFlight\<close>, and every other handler may run before its tail does. Nothing cancels a
  suspended call: a later call of \<open>renderPart\<close> clears the narrator and the timers, and the
  earlier one goes on typing and runs its tail all the same. When the part has no step to
  await, the call runs through its tail at once.
\<close>

definition renderPart :: "nat \<Rightarrow> app \<Rightarrow> app" where
  "renderPart index s =
     (case lookup_part s index of
        None \<Rightarrow> s
      | Some p \<Rightarrow>
          (let s1 = renderPart_begin index p s
           in if awaits p then s1\<lparr>inFlight := inFlight s1 @ [(index, p)]\<rparr>
              else renderPart_finish p s1))"

text \<open>
  The last step of the \<open>k\<close>-th suspended call has resolved: the call leaves \<open>inFlight\<close>
  and runs its tail. The calls type at their own pace (a shorter part started later may be
  done before a longer one started earlier), so any of them may be the next to finish.
\<close>

definition renderPart_resume :: "nat \<Rightarrow> app \<Rightarrow> app" where
  "renderPart_resume k s =
     (if k < length (inFlight s)
      then renderPart_finish (snd (inFlight s ! k))
             (s\<lparr>inFlight := take k (inFlight s) @ drop (Suc k) (inFlight s)\<rparr>)
      else s)"

text \<open>
  \<open>endTutorial\<close>: sets the persistent flag, strips every tutorial class from the body and
  hides the overlay. (It then reloads the session list and the history from the backend.)
\<close>

definition markFirstRunComplete :: "app \<Rightarrow> app" where
  "markFirstRunComplete s = s\<lparr>firstRunComplete := True\<rparr>"

definition isTutorialClass :: "string \<Rightarrow> bool" where
  "isTutorialClass c \<longleftrightarrow> prefix ''frt-'' c \<or> c = ''first-run-tutorial'' \<or> c = ''is-dimmed''"

definition endTutorial :: "app \<Rightarrow> app" where
  "endTutorial s =
     (let s1 = markFirstRunComplete s
      in s1\<lparr>bodyClasses := filter (\<lambda>c. \<not> isTutorialClass c) (bodyClasses s1),
            overlayShown := False,
            tutorialHistory := []\<rparr>)"

text \<open>The click handler of the forward button, with the branch it took.\<close>

datatype next_outcome =
    BootStarted | SkipRequested | GateBlocked | DeadEnd | Advanced | TrackChanged
  | TutorialEnded | ModelEndFallback

definition gate_pending :: "app \<Rightarrow> bool" where
  "gate_pending s \<longleftrightarrow> kind (requiredAction s) \<noteq> None \<and> \<not> satisfied (requiredAction s)"

definition btnNext_click :: "app \<Rightarrow> next_outcome \<times> app" where
  "btnNext_click s =
     (if stage s = stage_boot then
        (BootStarted,
         renderPart 1 (s\<lparr>bodyClasses := classList_remove ''frt-boot'' (bodyClasses s),
                         stage := stage_script\<rparr>))
      else if isTyping s then (SkipRequested, s\<lparr>skipRequested := True\<rparr>)
      else if gate_pending s then
        (if kind (requiredAction s) = Some final_review_confirm then (GateBlocked, s)
         else (GateBlocked,
               s\<lparr>requiredAction :=
                    (requiredAction s)\<lparr>attempts := attempts (requiredAction s) + 1\<rparr>\<rparr>))
      else if track s = tr_model \<and> partIndex s = 4 then (DeadEnd, s)
      else if partIndex s < getMaxPart s then (Advanced, renderPart (partIndex s + 1) s)
      else (case track s of
              tr_intro \<Rightarrow>
                (TrackChanged,
                 renderPart 1
                   (s\<lparr>track := tr_model, partIndex := 0,
                      bodyClasses := classList_add ''frt-wide-panel''
                                       (classList_add ''frt-split'' (bodyClasses s))\<rparr>))
            | tr_system_prompt \<Rightarrow>
                (TrackChanged, renderPart 1 (s\<lparr>track := tr_context, partIndex := 0\<rparr>))
            | tr_context \<Rightarrow>
                (TrackChanged, renderPart 1 (s\<lparr>track := tr_memory, partIndex := 0\<rparr>))
            | tr_memory \<Rightarrow> (TutorialEnded, endTutorial s)
            | tr_model \<Rightarrow>
                (ModelEndFallback,
                 s\<lparr>bodyClasses := classList_add ''frt-pulse-model''
                                     (classList_add ''frt-allow-right-rail'' (bodyClasses s))\<rparr>)))"

definition next_state :: "app \<Rightarrow> app" where
  "next_state s = snd (btnNext_click s)"

text \<open>The click handler of the back button.\<close>

definition btnBack_click :: "app \<Rightarrow> app" where
  "btnBack_click s =
     (if isTyping s then s\<lparr>skipRequested := True\<rparr>
      else if partIndex s > 1 then renderPart (partIndex s - 1) s
      else s)"

section \<open>The tutorial chat and the gate\<close>

text \<open>
  The required-action check that \<open>api.chat\<close> runs once the reply of a tutorial chat has
  been read. \<open>attempts >= soft_after\<close> is false while \<open>soft_after\<close> is \<open>undefined\<close>.
\<close>

definition soft_reached :: "nat \<Rightarrow> nat option \<Rightarrow> bool" where
  "soft_reached n lim = (case lim of None \<Rightarrow> False | Some m \<Rightarrow> n \<ge> m)"

text \<open>\<open>(FRT.requiredAction.baselineQuestion || "").trim().toLowerCase()\<close>\<close>

definition gate_baseline :: "required_action \<Rightarrow> string" where
  "gate_baseline ra =
     toLowerCase (trim (case baselineQuestion ra of None \<Rightarrow> [] | Some b \<Rightarrow> b))"

definition gate_check :: "string \<Rightarrow> app \<Rightarrow> app" where
  "gate_check promptText s =
     (let ra = requiredAction s
      in if kind ra \<noteq> None \<and> \<not> satisfied ra then
           (let userMsg = toLowerCase (trim promptText)
            in if kind ra = Some chat_any then
                 s\<lparr>requiredAction := ra\<lparr>satisfied := True,
                                         baselineQuestion := Some (trim promptText)\<rparr>,
                   navLocked := False\<rparr>
               else if kind ra = Some chat_repeat then
                 (let baseline = gate_baseline ra
                  in if userMsg = baseline then
                       s\<lparr>requiredAction := ra\<lparr>satisfied := True\<rparr>, navLocked := False\<rparr>
                     else
                       (let ra' = ra\<lparr>attempts := attempts ra + 1\<rparr>
                        in if soft_reached (attempts ra') (soft_after ra') then
                             s\<lparr>requiredAction := ra'\<lparr>satisfied := True\<rparr>,
                               navLocked := False\<rparr>
                           else s\<lparr>requiredAction := ra'\<rparr>))
               else s)
         else s)"

text \<open>
  \<open>api.chat\<close>, as one completed exchange: \<open>textOverride\<close> is the argument, \<open>inputValue\<close>
  the content of the prompt box, and the third argument what the backend did (a reply that
  was read to its end, or a fetch or stream error, which the handler catches before the gate
  check is reached).
\<close>

datatype chat_result = Replied string | Failed

text \<open>\<open>textOverride || els.prompt.value.trim()\<close>: an empty override is falsy.\<close>

definition promptText_of :: "string option \<Rightarrow> string \<Rightarrow> string" where
  "promptText_of textOverride inputValue =
     (case textOverride of
        None \<Rightarrow> trim inputValue
      | Some t \<Rightarrow> if t = [] then trim inputValue else t)"

definition isTutorialChat :: "app \<Rightarrow> bool" where
  "isTutorialChat s \<longleftrightarrow>
     ''first-run-tutorial'' \<in> set (bodyClasses s)
     \<and> ''frt-split-with-chat'' \<in> set (bodyClasses s)"

definition api_chat :: "string option \<Rightarrow> string \<Rightarrow> chat_result \<Rightarrow> app \<Rightarrow> app" where
  "api_chat textOverride inputValue res s =
     (let promptText = promptText_of textOverride inputValue
      in if promptText = [] \<or> isGenerating s then s
         else
           (let isTutorialChat = isTutorialChat s;
                s1 = (if isTutorialChat
                      then s\<lparr>tutorialHistory := tutorialHistory s @ [(''user'', promptText)]\<rparr>
                      else s)
            in case res of
                 Failed \<Rightarrow> s1
               | Replied reply \<Rightarrow>
                   if isTutorialChat
                   then gate_check promptText
                          (s1\<lparr>tutorialHistory := tutorialHistory s1 @ [(''assistant'', reply)]\<rparr>)
                   else s1))"

text \<open>
  A submission that reaches the gate check of a \<open>chat_repeat\<close> gate and does not equal the
  baseline: the prompt is not empty (an empty prompt makes \<open>api.chat\<close> return at once) and
  differs from the baseline once both are trimmed and lowercased.
\<close>

definition mismatched :: "app \<Rightarrow> string option \<Rightarrow> string \<Rightarrow> bool" where
  "mismatched s textOverride inputValue \<longleftrightarrow>
     promptText_of textOverride inputValue \<noteq> []
     \<and> toLowerCase (trim (promptText_of textOverride inputValue))
         \<noteq> gate_baseline (requiredAction s)"

text \<open>A sequence of chat exchanges, each given by its override, its input and its outcome.\<close>

fun chats :: "(string option \<times> string \<times> chat_result) list \<Rightarrow> app \<Rightarrow> app" where
  "chats [] s = s"
| "chats ((textOverride, inputValue, res) # evs) s =
     chats evs (api_chat textOverride inputValue res s)"

section \<open>Entering the tutorial and loading a model\<close>

text \<open>
  The state once the page script has run: the literal that initialises \<open>FRT\<close>, the
  literal that initialises \<open>state\<close>, an empty staging store and no first-run flag.
  Modelled from the spec: the markup of the page is not among the sources; the final review
  with its inline, retryable error is taken to be there (the overlay, its error element and
  the confirm button, whose caption is the one the narrator names), and the save button of
  the wizard carries the caption that the comment on its handler gives it.
\<close>

definition page_load :: app where
  "page_load =
     \<lparr>stage = stage_none, track = tr_intro, partIndex = 0, isTyping = False,
      skipRequested = False,
      requiredAction = \<lparr>kind = None, satisfied = False, attempts = 0,
                         baselineQuestion = None, soft_after = None\<rparr>,
      navLocked = False, bodyClasses = [], overlayShown = False, firstRunComplete = False,
      tutorialHistory = [], isGenerating = False, tutorialSystemPromptId = ''default'',
      tutorialSystemPromptText = TUTORIAL_PROMPT_DEFAULT, rpgShown = False,
      hasFinalReviewOverlay = True, finalReviewShown = False,
      sessionStorage = Map.empty, confirmDisabled = False,
      confirmText = Caption ''LOOKS GOOD'', hasFinalReviewError = True,
      finalReviewErrorText = [], finalReviewErrorShown = False, alerts = [],
      endTutorialScheduled = False, commits = [],
      usePromptDisabled = False, usePromptText = Caption ''Use This Prompt'',
      window_userPreferredName = [], handBackScheduled = False, inFlight = []\<rparr>"

definition isFirstRun :: "app \<Rightarrow> bool" where
  "isFirstRun s \<longleftrightarrow> \<not> firstRunComplete s"

definition enterFirstRunStep1 :: "app \<Rightarrow> app" where
  "enterFirstRunStep1 s =
     (let s1 = (case sessionStorage s ''rpg_system_prompt'' of
                  None \<Rightarrow> s
                | Some storedPrompt \<Rightarrow>
                    if storedPrompt = [] then s
                    else s\<lparr>tutorialSystemPromptId := ''custom'',
                           tutorialSystemPromptText := storedPrompt\<rparr>);
          s2 = s1\<lparr>stage := stage_boot,
                  bodyClasses := classList_add ''frt-boot''
                                   (classList_add ''is-dimmed''
                                     (classList_add ''first-run-tutorial'' (bodyClasses s1))),
                  overlayShown := True, navLocked := False\<rparr>
      in renderPart 1 (s2\<lparr>stage := stage_script\<rparr>))"

text \<open>What \<open>startApp\<close> does once the model list and the application state are fetched.\<close>

definition startApp :: "app \<Rightarrow> app" where
  "startApp s = (if isFirstRun s then enterFirstRunStep1 s else s)"

text \<open>
  \<open>api.loadModel\<close> when the backend has loaded the model: in the tutorial the play-head
  moves to the first part of the \<open>system_prompt\<close> track.
\<close>

definition loadModel_loaded :: "app \<Rightarrow> app" where
  "loadModel_loaded s =
     (if ''first-run-tutorial'' \<in> set (bodyClasses s) then
        renderPart 1
          (s\<lparr>bodyClasses := classList_remove ''frt-settings-open''
                               (classList_remove ''frt-pulse-model'' (bodyClasses s)),
             track := tr_system_prompt, partIndex := 1\<rparr>)
      else s)"

section \<open>The final review and its commit\<close>

text \<open>Decimal rendering of an array index, as \<open>Object.entries\<close> names the elements.\<close>

definition digit_char :: "nat \<Rightarrow> char" where
  "digit_char n = ''0123456789'' ! (n mod 10)"

fun show_nat :: "nat \<Rightarrow> string" where
  "show_nat n = (if n < 10 then [digit_char n]
                 else show_nat (n div 10) @ [digit_char (n mod 10)])"

declare show_nat.simps [simp del]

text \<open>
  \<open>Object.entries\<close>: the entries of an object, the indexed elements of an array, the
  indexed code units of a string, nothing for a number or a boolean, and a \<open>TypeError\<close>
  (here \<open>None\<close>) for \<open>null\<close>.
\<close>

definition Object_entries :: "json \<Rightarrow> (string \<times> json) list option" where
  "Object_entries v =
     (case v of
        JNull \<Rightarrow> None
      | JObj kvs \<Rightarrow> Some kvs
      | JArr xs \<Rightarrow> Some (zip (map show_nat [0..<length xs]) xs)
      | JStr t \<Rightarrow> Some (zip (map show_nat [0..<length t]) (map (\<lambda>c. JStr [c]) t))
      | _ \<Rightarrow> Some [])"

text \<open>\<open>json ? JSON.parse(json) : {}\<close>, with \<open>JSON.parse\<close> throwing as \<open>None\<close>.\<close>

definition parse_staged :: "(string \<Rightarrow> json option) \<Rightarrow> string option \<Rightarrow> json option" where
  "parse_staged parse item =
     (case item of
        None \<Rightarrow> Some (JObj [])
      | Some t \<Rightarrow> if t = [] then Some (JObj []) else parse t)"

definition trimValue :: "json \<Rightarrow> json" where
  "trimValue v = (case v of JStr t \<Rightarrow> JStr (trim t) | _ \<Rightarrow> v)"

definition keptValue :: "json \<Rightarrow> bool" where
  "keptValue v \<longleftrightarrow> v \<noteq> JStr [] \<and> v \<noteq> JNull"

definition cleanTierA :: "(string \<times> json) list \<Rightarrow> (string \<times> json) list" where
  "cleanTierA kvs = filter (\<lambda>(k, v). keptValue v) (map (\<lambda>(k, v). (k, trimValue v)) kvs)"

text \<open>\<open>Map.prototype.set\<close>: a known key keeps its place and takes the new value.\<close>

definition Map_set :: "string \<Rightarrow> json \<Rightarrow> (string \<times> json) list \<Rightarrow> (string \<times> json) list" where
  "Map_set k v m =
     (if k \<in> fst ` set m then map (\<lambda>(k', v'). if k' = k then (k', v) else (k', v')) m
      else m @ [(k, v)])"

definition tierBList :: "(string \<times> json) list \<Rightarrow> (string \<times> json) list" where
  "tierBList kvs =
     foldl (\<lambda>m (k, v). if trim k \<noteq> [] \<and> keptValue (trimValue v)
                        then Map_set (trim k) (trimValue v) m else m) [] kvs"

definition stagedSystemPrompt :: "app \<Rightarrow> string" where
  "stagedSystemPrompt s =
     (if tutorialSystemPromptText s \<noteq> [] then tutorialSystemPromptText s
      else (case sessionStorage s ''rpg_system_prompt'' of None \<Rightarrow> [] | Some t \<Rightarrow> t))"

text \<open>
  The request body the confirm handler builds from the staged data; \<open>None\<close> when
  \<open>JSON.parse\<close> or \<open>Object.entries\<close> throws before the request is made.
\<close>

definition build_payload :: "(string \<Rightarrow> json option) \<Rightarrow> app \<Rightarrow> commit_payload option" where
  "build_payload parse s =
     (case parse_staged parse (sessionStorage s ''rpg_tier_a'') of
        None \<Rightarrow> None
      | Some tierA \<Rightarrow>
     (case parse_staged parse (sessionStorage s ''tutorial_tier_b'') of
        None \<Rightarrow> None
      | Some tierB \<Rightarrow>
     (case parse (case sessionStorage s ''tutorial_defaults'' of
                    None \<Rightarrow> ''{}'' | Some t \<Rightarrow> if t = [] then ''{}'' else t) of
        None \<Rightarrow> None
      | Some dflt \<Rightarrow>
     (case Object_entries tierA of
        None \<Rightarrow> None
      | Some ea \<Rightarrow>
     (case Object_entries tierB of
        None \<Rightarrow> None
      | Some eb \<Rightarrow>
          Some \<lparr>system_prompt = stagedSystemPrompt s, tier_a = cleanTierA ea,
                tier_b = tierBList eb, defaults = dflt, tutorial_completed = True\<rparr>)))))"

text \<open>What the backend did with the commit: the fetch failed, or it answered (\<open>res.ok\<close>).\<close>

datatype commit_response = Network_error | Http_response bool

text \<open>The \<open>catch\<close> block of the confirm handler.\<close>

definition commit_failed :: "button_label \<Rightarrow> app \<Rightarrow> app" where
  "commit_failed originalText s =
     (let s1 = s\<lparr>confirmDisabled := False, confirmText := originalText\<rparr>
      in if hasFinalReviewError s1
         then s1\<lparr>finalReviewErrorText := ''Failed to save. Please try again.'',
                 finalReviewErrorShown := True\<rparr>
         else s1\<lparr>alerts := alerts s1 @ [''Failed to save. Please try again.'']\<rparr>)"

definition commit_succeeded :: "app \<Rightarrow> app" where
  "commit_succeeded s =
     s\<lparr>requiredAction := (requiredAction s)\<lparr>satisfied := True, kind := None\<rparr>,
       navLocked := False,
       finalReviewShown := (if hasFinalReviewOverlay s then False else finalReviewShown s),
       confirmText := SAVED,
       endTutorialScheduled := True\<rparr>"

definition btnFinalReviewConfirm_click ::
  "(string \<Rightarrow> json option) \<Rightarrow> commit_response \<Rightarrow> app \<Rightarrow> app" where
  "btnFinalReviewConfirm_click parse resp s =
     (let originalText = confirmText s;
          s1 = s\<lparr>confirmDisabled := True, confirmText := SAVING\<rparr>
      in case build_payload parse s1 of
           None \<Rightarrow> commit_failed originalText s1
         | Some body \<Rightarrow>
             (let s2 = s1\<lparr>commits := commits s1 @ [body]\<rparr>
              in case resp of
                   Network_error \<Rightarrow> commit_failed originalText s2
                 | Http_response ok \<Rightarrow>
                     if ok then commit_succeeded s2 else commit_failed originalText s2))"

text \<open>The two timers the handler arms: the error hides after 3 s, the tutorial ends after 0.8 s.\<close>

definition finalReviewError_timeout :: "app \<Rightarrow> app" where
  "finalReviewError_timeout s = s\<lparr>finalReviewErrorShown := False\<rparr>"

definition endTutorial_timeout :: "app \<Rightarrow> app" where
  "endTutorial_timeout s =
     (if endTutorialScheduled s then endTutorial (s\<lparr>endTutorialScheduled := False\<rparr>) else s)"

text \<open>
  The commit of the final review fails when the staged data cannot be read back, when the
  request fails, or when the endpoint answers with an error status.
\<close>

definition commit_fails :: "(string \<Rightarrow> json option) \<Rightarrow> commit_response \<Rightarrow> app \<Rightarrow> bool" where
  "commit_fails parse resp s \<longleftrightarrow>
     build_payload parse s = None \<or> resp \<noteq> Http_response True"

section \<open>The typewriter and the line step\<close>

text \<open>
  The element a text is typed into: its \<open>textContent\<close> and whether it carries the
  \<open>typewriter-cursor\<close> class.
\<close>

record surface =
  textContent :: string
  cursorActive :: bool

text \<open>How a promise ends. \<open>UX.typeWriter\<close> builds its promise from \<open>resolve\<close> alone.\<close>

datatype settled = Resolved | Rejected

text \<open>
  \<open>typeChar\<close>, the timer callback of \<open>UX.typeWriter\<close>. Time is counted in turns of the
  event loop: \<open>shouldSkip t\<close> is what \<open>shouldSkip()\<close> returns in turn \<open>t\<close>, and every
  \<open>setTimeout\<close> moves to a later turn (the random delay decides how much later in wall
  time, which the turn count abstracts from). \<open>i\<close> is the index of the next character.
  The result is the element and the turn in which the promise resolves.
\<close>

function typeChar ::
  "string \<Rightarrow> (nat \<Rightarrow> bool) \<Rightarrow> nat \<Rightarrow> nat \<Rightarrow> surface \<Rightarrow> surface \<times> settled \<times> nat" where
  "typeChar text shouldSkip t i el =
     (if shouldSkip t then (el\<lparr>textContent := text, cursorActive := False\<rparr>, Resolved, t)
      else if i < length text then
        typeChar text shouldSkip (t + 1) (i + 1)
          (el\<lparr>textContent := textContent el @ [text ! i]\<rparr>)
      else (el\<lparr>cursorActive := False\<rparr>, Resolved, t))"
  by pat_completeness auto
termination
  by (relation "measure (\<lambda>(text, shouldSkip, t, i, el). length text - i)") auto

declare typeChar.simps [simp del]

definition typeWriter ::
  "surface \<Rightarrow> string \<Rightarrow> (nat \<Rightarrow> bool) \<Rightarrow> nat \<Rightarrow> surface \<times> settled \<times> nat" where
  "typeWriter element text shouldSkip t =
     (let el = element\<lparr>cursorActive := True, textContent := []\<rparr>
      in if shouldSkip t then (el\<lparr>textContent := text, cursorActive := False\<rparr>, Resolved, t)
         else typeChar text shouldSkip t 0 el)"

text \<open>
  \<open>waitWithSkip\<close>: slices of 25 ms, each one a timer, left at once when the skip flag is
  seen. The result is the turn in which it returns.
\<close>

function waitWithSkip_from :: "nat \<Rightarrow> (nat \<Rightarrow> bool) \<Rightarrow> nat \<Rightarrow> nat \<Rightarrow> nat" where
  "waitWithSkip_from ms shouldSkip elapsed t =
     (if elapsed < ms then
        (if shouldSkip t then t else waitWithSkip_from ms shouldSkip (elapsed + 25) (t + 1))
      else t)"
  by pat_completeness auto
termination
  by (relation "measure (\<lambda>(ms, shouldSkip, elapsed, t). ms - elapsed)") auto

declare waitWithSkip_from.simps [simp del]

definition waitWithSkip :: "nat \<Rightarrow> (nat \<Rightarrow> bool) \<Rightarrow> nat \<Rightarrow> nat" where
  "waitWithSkip ms shouldSkip t = waitWithSkip_from ms shouldSkip 0 t"

text \<open>\<open>text.trim().split(/\s+/).filter(Boolean)\<close>: the maximal runs of other characters.\<close>

function words_of :: "string \<Rightarrow> string list" where
  "words_of s =
     (case dropWhile isWhiteSpace s of
        [] \<Rightarrow> []
      | c # cs \<Rightarrow> takeWhile (\<lambda>x. \<not> isWhiteSpace x) (c # cs)
                  # words_of (dropWhile (\<lambda>x. \<not> isWhiteSpace x) (c # cs)))"
  by pat_completeness auto
termination
proof (relation "measure length")
  show "wf (measure length)" by simp
next
  fix s :: string and c cs
  assume a: "dropWhile isWhiteSpace s = c # cs"
  then have "\<not> isWhiteSpace c"
    using hd_dropWhile[of isWhiteSpace s] by auto
  then have "dropWhile (\<lambda>x. \<not> isWhiteSpace x) (c # cs) = dropWhile (\<lambda>x. \<not> isWhiteSpace x) cs"
    by simp
  moreover have "length (dropWhile (\<lambda>x. \<not> isWhiteSpace x) cs) \<le> length cs"
    by (rule length_dropWhile_le)
  moreover have "length (c # cs) \<le> length s"
    using a length_dropWhile_le[of isWhiteSpace s] by simp
  ultimately show "(dropWhile (\<lambda>x. \<not> isWhiteSpace x) (c # cs), s) \<in> measure length"
    by simp
qed

declare words_of.simps [simp del]

definition autoReadPause :: "string \<Rightarrow> (nat \<Rightarrow> bool) \<Rightarrow> nat \<Rightarrow> nat" where
  "autoReadPause text shouldSkip t =
     (if shouldSkip t then t
      else waitWithSkip (max 250 (min 900 (150 + length (words_of (trim text)) * 70)))
             shouldSkip t)"

text \<open>A segment of a line step, and the line branch of the step loop of \<open>renderPart\<close>.\<close>

record segment =
  seg_text :: string
  className :: "string option"

fun type_segments ::
  "bool \<Rightarrow> (nat \<Rightarrow> bool) \<Rightarrow> segment list \<Rightarrow> nat \<Rightarrow> surface list \<times> settled \<times> nat" where
  "type_segments isInstant shouldSkip [] t = ([], Resolved, t)"
| "type_segments isInstant shouldSkip (seg # segs) t =
     (let span = \<lparr>textContent = [], cursorActive = False\<rparr>
      in if isInstant then
           (let (spans, r, t') = type_segments isInstant shouldSkip segs t
            in (span\<lparr>textContent := seg_text seg\<rparr> # spans, r, t'))
         else
           (case typeWriter span (seg_text seg) shouldSkip t of
              (span', Rejected, t') \<Rightarrow> ([span'], Rejected, t')
            | (span', Resolved, t') \<Rightarrow>
                (let (spans, r, t'') = type_segments isInstant shouldSkip segs t'
                 in (span' # spans, r, t''))))"

definition render_line ::
  "bool \<Rightarrow> segment list \<Rightarrow> (nat \<Rightarrow> bool) \<Rightarrow> nat \<Rightarrow> surface list \<times> settled \<times> nat" where
  "render_line isInstant segments shouldSkip t =
     (case type_segments isInstant shouldSkip segments t of
        (spans, Rejected, t') \<Rightarrow> (spans, Rejected, t')
      | (spans, Resolved, t') \<Rightarrow>
          if isInstant then (spans, Resolved, t')
          else (spans, Resolved,
                autoReadPause (concat (map seg_text segments)) shouldSkip t'))"

text \<open>The skip flag is set in turn \<open>k\<close> and stays set.\<close>

definition skip_from :: "nat \<Rightarrow> nat \<Rightarrow> bool" where
  "skip_from k t \<longleftrightarrow> k \<le> t"

section \<open>Name substitution\<close>

text \<open>
  The replacement text of \<open>String.prototype.replace\<close> for a pattern without capture
  groups: \<open>$$\<close> is a dollar sign, \<open>$&\<close> the match, \<open>$`\<close> the text before the match and
  \<open>$'\<close> the text after it; every other character stands for itself.
\<close>

fun getSubstitution :: "string \<Rightarrow> string \<Rightarrow> string \<Rightarrow> string \<Rightarrow> string" where
  "getSubstitution matched preceding following [] = []"
| "getSubstitution matched preceding following [c] = [c]"
| "getSubstitution matched preceding following (c # d # rest) =
     (if c = CHR ''$'' \<and> d = CHR ''$'' then CHR ''$'' # getSubstitution matched preceding following rest
      else if c = CHR ''$'' \<and> d = CHR ''&'' then matched @ getSubstitution matched preceding following rest
      else if c = CHR ''$'' \<and> d = CHR ''`'' then preceding @ getSubstitution matched preceding following rest
      else if c = CHR ''$'' \<and> d = CHR 0x27 then following @ getSubstitution matched preceding following rest
      else c # getSubstitution matched preceding following (d # rest))"

text \<open>\<open>text.replace(/{name}/g, replacement)\<close>, reading on in \<open>text\<close> with \<open>preceding\<close> already read.\<close>

function replace_name_from :: "string \<Rightarrow> string \<Rightarrow> string \<Rightarrow> string" where
  "replace_name_from replacement preceding [] = []"
| "replace_name_from replacement preceding (c # cs) =
     (if prefix ''{name}'' (c # cs) then
        getSubstitution ''{name}'' preceding (drop 5 cs) replacement
        @ replace_name_from replacement (preceding @ ''{name}'') (drop 5 cs)
      else c # replace_name_from replacement (preceding @ [c]) cs)"
  by pat_completeness auto
termination
  by (relation "measure (\<lambda>(replacement, preceding, text). length text)") auto

definition replace_name :: "string \<Rightarrow> string \<Rightarrow> string" where
  "replace_name replacement text = replace_name_from replacement [] text"

text \<open>\<open>text.replace(/,\s*\{name\}/g, "")\<close>\<close>

function strip_comma_name :: "string \<Rightarrow> string" where
  "strip_comma_name [] = []"
| "strip_comma_name (c # cs) =
     (if c = CHR '','' \<and> prefix ''{name}'' (dropWhile isWhiteSpace cs)
      then strip_comma_name (drop 6 (dropWhile isWhiteSpace cs))
      else c # strip_comma_name cs)"
  by pat_completeness auto
termination
proof (relation "measure length")
  show "wf (measure length)" by simp
next
  fix c :: char and cs :: string
  have "length (drop 6 (dropWhile isWhiteSpace cs)) \<le> length cs"
    using length_dropWhile_le[of isWhiteSpace cs] by simp
  then show "(drop 6 (dropWhile isWhiteSpace cs), c # cs) \<in> measure length"
    by simp
next
  fix c :: char and cs :: string
  show "(cs, c # cs) \<in> measure length" by simp
qed

text \<open>
  What \<open>replaceNamePlaceholder\<close> reads and writes: whether the body has the
  \<open>first-run-tutorial\<close> class, the current track, \<open>window.userPreferredName\<close>, the
  \<open>user_preferred_name\<close> item of the staging store, and the tracks marked in
  \<open>FRT.nameUsedByTrack\<close>.
\<close>

record name_state =
  inFirstRunTutorial :: bool
  currentTrack :: track
  userPreferredName :: string
  storedPreferredName :: "string option"
  nameUsedByTrack :: "track set"

definition limitedTracks :: "track set" where
  "limitedTracks = {tr_system_prompt, tr_context, tr_memory}"

definition replaceNamePlaceholder :: "string \<Rightarrow> name_state \<Rightarrow> string \<times> name_state" where
  "replaceNamePlaceholder text st =
     (if inFirstRunTutorial st \<and> (currentTrack st = tr_intro \<or> currentTrack st = tr_model)
      then (replace_name ''user'' text, st)
      else
        (let name = (if userPreferredName st \<noteq> [] then userPreferredName st
                     else (case storedPreferredName st of None \<Rightarrow> [] | Some n \<Rightarrow> n));
             finalName = (if name \<noteq> [] then name else ''user'')
         in if name \<noteq> [] \<and> currentTrack st \<in> limitedTracks then
              (if currentTrack st \<notin> nameUsedByTrack st then
                 (replace_name finalName text,
                  st\<lparr>nameUsedByTrack := insert (currentTrack st) (nameUsedByTrack st)\<rparr>)
               else (replace_name [] (strip_comma_name text), st))
            else (replace_name finalName text, st)))"

text \<open>
  The text of a part: its steps and its four optional lines. A line step has segments, a
  list step has items; any other step is kept as it is, except for the four optional lines
  it may carry.
\<close>

datatype step =
    Line bool "segment list"
  | ListItems "string list"
  | OtherStep "string option" "string option" "string option" "string option"

record part_content =
  steps :: "step list"
  idleLine :: "string option"
  clickAttemptLine :: "string option"
  typingAttemptLine :: "string option"
  earlyClickLine :: "string option"

text \<open>\<open>if (x.line) x.line = replaceNamePlaceholder(x.line)\<close>: an empty line is falsy.\<close>

definition replace_optional :: "string option \<Rightarrow> name_state \<Rightarrow> string option \<times> name_state" where
  "replace_optional line st =
     (case line of
        None \<Rightarrow> (None, st)
      | Some l \<Rightarrow> if l = [] then (Some l, st)
                  else (let (l', st') = replaceNamePlaceholder l st in (Some l', st')))"

fun replace_segments :: "segment list \<Rightarrow> name_state \<Rightarrow> segment list \<times> name_state" where
  "replace_segments [] st = ([], st)"
| "replace_segments (seg # segs) st =
     (let (t, st1) = replaceNamePlaceholder (seg_text seg) st;
          (segs', st2) = replace_segments segs st1
      in (seg\<lparr>seg_text := t\<rparr> # segs', st2))"

fun replace_items :: "string list \<Rightarrow> name_state \<Rightarrow> string list \<times> name_state" where
  "replace_items [] st = ([], st)"
| "replace_items (item # items) st =
     (let (t, st1) = replaceNamePlaceholder item st;
          (items', st2) = replace_items items st1
      in (t # items', st2))"

fun replace_step :: "step \<Rightarrow> name_state \<Rightarrow> step \<times> name_state" where
  "replace_step (Line isInstant segs) st =
     (let (segs', st') = replace_segments segs st in (Line isInstant segs', st'))"
| "replace_step (ListItems items) st =
     (let (items', st') = replace_items items st in (ListItems items', st'))"
| "replace_step (OtherStep idle click typing early) st =
     (let (idle', st1) = replace_optional idle st;
          (click', st2) = replace_optional click st1;
          (typing', st3) = replace_optional typing st2;
          (early', st4) = replace_optional early st3
      in (OtherStep idle' click' typing' early', st4))"

fun replace_steps :: "step list \<Rightarrow> name_state \<Rightarrow> step list \<times> name_state" where
  "replace_steps [] st = ([], st)"
| "replace_steps (x # xs) st =
     (let (x', st1) = replace_step x st;
          (xs', st2) = replace_steps xs st1
      in (x' # xs', st2))"

definition processPartWithName :: "part_content \<Rightarrow> name_state \<Rightarrow> part_content \<times> name_state" where
  "processPartWithName p st =
     (let (steps', st0) = replace_steps (steps p) st;
          (idle', st1) = replace_optional (idleLine p) st0;
          (click', st2) = replace_optional (clickAttemptLine p) st1;
          (typing', st3) = replace_optional (typingAttemptLine p) st2;
          (early', st4) = replace_optional (earlyClickLine p) st3
      in (\<lparr>steps = steps', idleLine = idle', clickAttemptLine = click',
           typingAttemptLine = typing', earlyClickLine = early'\<rparr>, st4))"

text \<open>
  Part 11 of the \<open>system_prompt\<close> track, the part the wizard returns to once the prompt
  is saved (the pause steps have no text).
\<close>

definition system_prompt_part_11 :: part_content where
  "system_prompt_part_11 =
     \<lparr>steps =
        [Line False [\<lparr>seg_text = ''There we go.'', className = None\<rparr>],
         OtherStep None None None None,
         Line False [\<lparr>seg_text = ''You've just set your first system prompt, {name}.'',
                      className = None\<rparr>],
         Line False [\<lparr>seg_text = ''From now on, that's the script I'll follow when we talk.'',
                      className = None\<rparr>]],
      idleLine = Some ''Welcome back.\<newline>How does it feel?'',
      clickAttemptLine = None, typingAttemptLine = None, earlyClickLine = None\<rparr>"

text \<open>
  The name state when the wizard hands back: the tutorial is running, the track is
  \<open>system_prompt\<close>, the name has just been stored, and no track is marked yet.
\<close>

definition after_wizard :: "string \<Rightarrow> name_state" where
  "after_wizard n =
     \<lparr>inFirstRunTutorial = True, currentTrack = tr_system_prompt, userPreferredName = n,
      storedPreferredName = Some n, nameUsedByTrack = {}\<rparr>"

section \<open>The questionnaire wizard (RPG)\<close>

record identity =
  preferred_name :: string
  location :: string
  timezone :: string
  language_preferences :: string

record answers =
  name :: string
  domain :: string
  style :: string
  capabilities :: "string list"
  identity :: identity
  custom :: string

text \<open>
  The two lookup tables of \<open>generateSystemPrompt\<close>. A key that is not in a table reads
  as \<open>undefined\<close>.
\<close>

definition domainMap :: "(string \<times> string) list" where
  "domainMap =
     [(''Software Development / Tech'', ''working in software development and technology''),
      (''Creative Work (Writing, Art)'', ''focused on creative work, including writing and art''),
      (''Business / Entrepreneurship'', ''engaged in business and entrepreneurship''),
      (''Student / Learning'', ''dedicated to learning and academic growth''),
      (''Research / Academia'', ''pursuing research and academic excellence''),
      (''Just Exploring'', ''exploring the possibilities of AI'')]"

definition styleMap :: "(string \<times> string) list" where
  "styleMap =
     [(''Professional & Concise'', ''Maintain a professional, concise tone. Be direct and clear, providing exactly what's needed without unnecessary elaboration.''),
      (''Casual & Conversational'', ''Keep things friendly and conversational. Use a relaxed, approachable tone that feels like talking with a knowledgeable friend.''),
      (''Detailed & Thorough'', ''Provide comprehensive, well-explained responses. Break down complex ideas into clear steps and ensure thorough understanding of each concept.''),
      (''Creative & Playful'', ''Embrace creativity and playfulness in your responses. Make interactions engaging and fun while delivering helpful, accurate information.'')]"

text \<open>\<open>Array.prototype.join\<close>\<close>

fun join :: "string \<Rightarrow> string list \<Rightarrow> string" where
  "join sep [] = []"
| "join sep [x] = x"
| "join sep (x # y # ys) = x @ sep @ join sep (y # ys)"

text \<open>The capabilities clause that \<open>generateSystemPrompt\<close> appends.\<close>

definition capabilitiesClause :: "string list \<Rightarrow> string" where
  "capabilitiesClause caps =
     (if caps = [] then []
      else (let capsList = map toLowerCase caps
            in if length capsList = 1 then
                 ''\<newline>\<newline>You specialize in '' @ capsList ! 0 @ ''.''
               else if length capsList = 2 then
                 ''\<newline>\<newline>You excel at '' @ capsList ! 0 @ '' and '' @ capsList ! 1 @ ''.''
               else
                 ''\<newline>\<newline>You excel at '' @ join '', '' (butlast capsList)
                 @ '', and '' @ last capsList @ ''.''))"

definition generateSystemPrompt :: "answers \<Rightarrow> string" where
  "generateSystemPrompt a =
     (let pname = preferred_name (identity a);
          p1 = ''You are an AI assistant''
               @ (if trim pname \<noteq> [] then '' for '' @ trim pname else []);
          p2 = p1 @ (case map_of domainMap (domain a) of
                       None \<Rightarrow> [] | Some d \<Rightarrow> '', '' @ d);
          p3 = p2 @ ''.'';
          p4 = p3 @ (case map_of styleMap (style a) of
                       None \<Rightarrow> [] | Some t \<Rightarrow> ''\<newline>\<newline>'' @ t);
          p5 = p4 @ capabilitiesClause (capabilities a);
          p6 = p5 @ (if trim (custom a) \<noteq> []
                     then ''\<newline>\<newline>Additional guidance: '' @ trim (custom a) else [])
      in trim p6)"

text \<open>
  A multi-choice question and the controls \<open>renderMultiChoice\<close> builds for it: one
  checkbox per choice, with its \<open>checked\<close> state and the \<open>selected\<close> class of its label.
\<close>

record multi_question =
  maxChoices :: nat
  choices :: "string list"

record choice_box =
  choice :: string
  checked :: bool
  selected :: bool

record wizard =
  wizard_answers :: answers
  boxes :: "choice_box list"
  nextDisabled :: bool

definition renderMultiChoice :: "multi_question \<Rightarrow> wizard \<Rightarrow> wizard" where
  "renderMultiChoice question w =
     w\<lparr>boxes :=
          map (\<lambda>c. \<lparr>choice = c,
                     checked = (c \<in> set (capabilities (wizard_answers w))),
                     selected = (c \<in> set (capabilities (wizard_answers w)))\<rparr>)
              (choices question)\<rparr>"

text \<open>\<open>updateNavigation\<close> on a multi-choice question: Next needs one selection.\<close>

definition updateNavigation :: "wizard \<Rightarrow> wizard" where
  "updateNavigation w = w\<lparr>nextDisabled := \<not> (length (capabilities (wizard_answers w)) > 0)\<rparr>"

text \<open>
  The \<open>change\<close> listener of the checkbox at position \<open>i\<close>. The browser has already
  flipped \<open>checked\<close> when the listener runs.
\<close>

definition checkbox_change :: "multi_question \<Rightarrow> nat \<Rightarrow> wizard \<Rightarrow> wizard" where
  "checkbox_change question i w =
     (let box = boxes w ! i; caps = capabilities (wizard_answers w)
      in if checked box then
           (if length caps \<ge> maxChoices question then
              w\<lparr>boxes := (boxes w)[i := box\<lparr>checked := False\<rparr>]\<rparr>
            else
              updateNavigation
                (w\<lparr>wizard_answers := (wizard_answers w)\<lparr>capabilities := caps @ [choice box]\<rparr>,
                   boxes := (boxes w)[i := box\<lparr>selected := True\<rparr>]\<rparr>))
         else
           updateNavigation
             (w\<lparr>wizard_answers :=
                  (wizard_answers w)\<lparr>capabilities := filter (\<lambda>c. c \<noteq> choice box) caps\<rparr>,
                boxes := (boxes w)[i := box\<lparr>selected := False\<rparr>]\<rparr>))"

text \<open>The user clicks the checkbox at position \<open>i\<close>: it flips, then the listener runs.\<close>

definition click_checkbox :: "multi_question \<Rightarrow> nat \<Rightarrow> wizard \<Rightarrow> wizard" where
  "click_checkbox question i w =
     checkbox_change question i
       (w\<lparr>boxes := (boxes w)[i := (boxes w ! i)\<lparr>checked := \<not> checked (boxes w ! i)\<rparr>]\<rparr>)"

text \<open>The capabilities question of \<open>RPG_QUESTIONS\<close> and the initial answers of \<open>RPG\<close>.\<close>

definition capabilities_question :: multi_question where
  "capabilities_question =
     \<lparr>maxChoices = 3,
      choices = [''Writing & Brainstorming'', ''Coding & Technical Problems'',
                 ''Research & Learning'', ''Personal Productivity'', ''Creative Projects'',
                 ''General Conversation'']\<rparr>"

definition initial_answers :: answers where
  "initial_answers =
     \<lparr>name = [], domain = [], style = [], capabilities = [],
      identity = \<lparr>preferred_name = [], location = [], timezone = [],
                   language_preferences = ''English''\<rparr>,
      custom = []\<rparr>"

definition initial_wizard :: wizard where
  "initial_wizard =
     renderMultiChoice capabilities_question
       \<lparr>wizard_answers = initial_answers, boxes = [], nextDisabled = True\<rparr>"

text \<open>Three choices made, one after the other, on the capabilities question.\<close>

definition three_selected :: wizard where
  "three_selected =
     click_checkbox capabilities_question 2
       (click_checkbox capabilities_question 1
          (click_checkbox capabilities_question 0 initial_wizard))"

text \<open>A filled questionnaire with the given capabilities.\<close>

definition sample_answers :: "string list \<Rightarrow> answers" where
  "sample_answers caps =
     initial_answers\<lparr>name := ''Rishi'', domain := ''Just Exploring'',
       style := ''Creative & Playful'', capabilities := caps,
       identity := (identity initial_answers)\<lparr>preferred_name := ''Rishi''\<rparr>,
       custom := '' Be kind. ''\<rparr>"

section \<open>Saving the prompt of the wizard\<close>

text \<open>
  \<open>JSON.stringify\<close> of a string: the quotation mark and the backslash are escaped, the
  control characters below the space are written by their short escape or by their code
  in four hexadecimal digits, lower case, and everything else is copied.
\<close>

definition hex_char :: "nat \<Rightarrow> char" where
  "hex_char n = ''0123456789abcdef'' ! (n mod 16)"

definition QuoteJSONChar :: "char \<Rightarrow> string" where
  "QuoteJSONChar c =
     (let n = of_char c :: nat in
      if n = 8 then [CHR 0x5C, CHR ''b'']
      else if n = 9 then [CHR 0x5C, CHR ''t'']
      else if n = 10 then [CHR 0x5C, CHR ''n'']
      else if n = 12 then [CHR 0x5C, CHR ''f'']
      else if n = 13 then [CHR 0x5C, CHR ''r'']
      else if n = 34 then [CHR 0x5C, CHR 0x22]
      else if n = 92 then [CHR 0x5C, CHR 0x5C]
      else if n < 32 then [CHR 0x5C, CHR ''u'', CHR ''0'', CHR ''0'', hex_char (n div 16),
                             hex_char n]
      else [c])"

definition QuoteJSONString :: "string \<Rightarrow> string" where
  "QuoteJSONString t = [CHR 0x22] @ concat (map QuoteJSONChar t) @ [CHR 0x22]"

text \<open>
  \<open>JSON.stringify(answers.identity)\<close>: the four properties in the order the literal of
  \<open>RPG.answers\<close> creates them, with no white space.
\<close>

definition JSON_stringify_identity :: "identity \<Rightarrow> string" where
  "JSON_stringify_identity i =
     ''{'' @ QuoteJSONString ''preferred_name'' @ '':'' @ QuoteJSONString (preferred_name i)
     @ '','' @ QuoteJSONString ''location'' @ '':'' @ QuoteJSONString (location i)
     @ '','' @ QuoteJSONString ''timezone'' @ '':'' @ QuoteJSONString (timezone i)
     @ '','' @ QuoteJSONString ''language_preferences'' @ '':''
     @ QuoteJSONString (language_preferences i) @ ''}''"

text \<open>
  What the backend did with the prompt: the request or the reading of its answer failed,
  or the prompt is saved.
\<close>

datatype save_result = Save_failed | Save_ok

text \<open>
  \<open>RPG.saveSystemPrompt\<close>, with the answers of the wizard as \<open>getAnswers\<close> returns them.
  On success the prompt, the name and the identity are staged in \<open>sessionStorage\<close>, the
  prompt becomes the prompt of the tutorial chat, and the return to the narrator is armed
  (800 ms). On failure the button is enabled again with its caption and an alert is raised.
\<close>

definition saveSystemPrompt :: "answers \<Rightarrow> string \<Rightarrow> save_result \<Rightarrow> app \<Rightarrow> app" where
  "saveSystemPrompt ans prompt res s =
     (let originalText = usePromptText s;
          s1 = s\<lparr>usePromptDisabled := True, usePromptText := SAVING\<rparr>
      in case res of
           Save_failed \<Rightarrow>
             s1\<lparr>usePromptDisabled := False, usePromptText := originalText,
                alerts := alerts s1 @ [''Failed to save system prompt. Please try again.'']\<rparr>
         | Save_ok \<Rightarrow>
             (let effectiveName = (if preferred_name (identity ans) = [] then ''Anonymous''
                                   else preferred_name (identity ans))
              in s1\<lparr>sessionStorage :=
                       (sessionStorage s1)
                         (''rpg_system_prompt'' \<mapsto> prompt,
                          ''user_preferred_name'' \<mapsto> effectiveName,
                          ''rpg_tier_a'' \<mapsto> JSON_stringify_identity (identity ans)),
                     window_userPreferredName := effectiveName,
                     tutorialSystemPromptId := ''custom'',
                     tutorialSystemPromptText := prompt,
                     usePromptText := SAVED,
                     handBackScheduled := True\<rparr>))"

text \<open>
  The click handler of the save button of the review screen; \<open>editorValue\<close> is what the
  prompt editor holds, the prompt that \<open>RPG.submit\<close> has generated or what the user has
  made of it. (\<open>RPG.submit\<close> has by then put the answers and the generated prompt in
  the store, under \<open>rpg_answers\<close> and \<open>rpg_system_prompt\<close>; nothing reads the first,
  and a successful save overwrites the second.)
\<close>

definition btnUsePrompt_click :: "answers \<Rightarrow> string \<Rightarrow> save_result \<Rightarrow> app \<Rightarrow> app" where
  "btnUsePrompt_click ans editorValue res s =
     (let finalPrompt = trim editorValue
      in if finalPrompt = [] then s\<lparr>alerts := alerts s @ [''Please enter a system prompt'']\<rparr>
         else saveSystemPrompt ans finalPrompt res s)"

text \<open>
  The timer that \<open>saveSystemPrompt\<close> arms: the wizard is hidden, and in the tutorial the
  play-head is put on part 11 of the \<open>system_prompt\<close> track and \<open>renderPart(11)\<close> is
  called, whether or not a part is being typed. (Outside the tutorial an alert is raised;
  the check mark that opens its message is not a character of the strings modelled here
  and is left out.)
\<close>

definition handBack_timeout :: "app \<Rightarrow> app" where
  "handBack_timeout s =
     (if handBackScheduled s then
        (let s1 = s\<lparr>handBackScheduled := False, rpgShown := False\<rparr>
         in if ''first-run-tutorial'' \<in> set (bodyClasses s1)
            then renderPart 11 (s1\<lparr>track := tr_system_prompt, partIndex := 11\<rparr>)
            else s1\<lparr>alerts := alerts s1 @
                   [''System prompt activated!\<newline>\<newline>Your AI assistant is now personalized.'']\<rparr>)
      else s)"

section \<open>Runs of the tutorial\<close>

text \<open>
  The events that drive the engine: the two navigation buttons, a suspended call of
  \<open>renderPart\<close> reaching its tail, a chat exchange, the model loader reporting success, the
  save button of the wizard with the answer of the backend and the delayed return to the
  narrator, the confirm button of the final review with the answer of the commit endpoint,
  and the delayed end of the tutorial. \<open>run\<close> fires a list of events in order and collects
  the branch every forward click took.
\<close>

datatype event =
    Next
  | Back
  | RenderDone nat
  | Chat "string option" string chat_result
  | ModelLoaded
  | UsePrompt answers string save_result
  | HandBack
  | Confirm commit_response
  | EndTimer

fun fire :: "(string \<Rightarrow> json option) \<Rightarrow> event \<Rightarrow> app \<Rightarrow> app" where
  "fire parse Next s = next_state s"
| "fire parse Back s = btnBack_click s"
| "fire parse (RenderDone k) s = renderPart_resume k s"
| "fire parse (Chat textOverride inputValue res) s = api_chat textOverride inputValue res s"
| "fire parse ModelLoaded s = loadModel_loaded s"
| "fire parse (UsePrompt ans editorValue res) s = btnUsePrompt_click ans editorValue res s"
| "fire parse HandBack s = handBack_timeout s"
| "fire parse (Confirm resp) s = btnFinalReviewConfirm_click parse resp s"
| "fire parse EndTimer s = endTutorial_timeout s"

fun run :: "(string \<Rightarrow> json option) \<Rightarrow> event list \<Rightarrow> app \<Rightarrow> next_outcome list \<times> app" where
  "run parse [] s = ([], s)"
| "run parse (e # evs) s =
     (let (os, t) = run parse evs (fire parse e s)
      in (if e = Next then fst (btnNext_click s) # os else os, t))"

text \<open>A parser that knows the empty object only; enough for an empty staging store.\<close>

definition parse_empty_object :: "string \<Rightarrow> json option" where
  "parse_empty_object t = (if t = ''{}'' then Some (JObj []) else None)"

text \<open>
  Forward clicks with no typing in progress: every click is made once the part on the
  screen is rendered to its end, and the only call of \<open>renderPart\<close> in flight is the one
  the click has started.
\<close>

definition forward_clicks :: "nat \<Rightarrow> event list" where
  "forward_clicks n = concat (replicate n [Next, RenderDone 0])"

text \<open>
  The tutorial is entered and its first part is rendered to the end; then eight forward
  clicks.
\<close>

definition to_model_loader :: "event list" where
  "to_model_loader = RenderDone 0 # forward_clicks 8"

definition at_model_loader :: app where
  "at_model_loader = snd (run parse_empty_object to_model_loader (startApp page_load))"

text \<open>
  From there: the model is loaded, three forward clicks lead to the \<open>chat_any\<close> part, the
  user asks a question, and three more forward clicks lead to the \<open>chat_repeat\<close> part.
\<close>

definition at_chat_any :: app where
  "at_chat_any =
     snd (run parse_empty_object ([ModelLoaded, RenderDone 0] @ forward_clicks 3)
            at_model_loader)"

definition at_chat_repeat :: app where
  "at_chat_repeat =
     snd (run parse_empty_object
            (Chat None ''What's 2+2?'' (Replied ''4'') # forward_clicks 3) at_chat_any)"

text \<open>
  The forward tour from the first part of the \<open>system_prompt\<close> track, once the loader has
  started it: the part is rendered to its end, three forward clicks, a question for the
  \<open>chat_any\<close> gate, three forward clicks, two questions for the \<open>chat_repeat\<close> gate, and
  fourteen forward clicks, the last of which enters the final part of the \<open>memory\<close>
  track.
\<close>

definition forward_tour :: "event list" where
  "forward_tour =
     RenderDone 0 # forward_clicks 3 @ [Chat None ''What's 2+2?'' (Replied ''4'')]
     @ forward_clicks 3
     @ [Chat None ''Tell me a fact about the ocean.'' (Replied ''Arr.''),
        Chat None ''Why is the sky blue?'' (Replied ''Arr.'')]
     @ forward_clicks 14"

definition at_final_review :: app where
  "at_final_review =
     snd (run parse_empty_object forward_tour (loadModel_loaded at_model_loader))"

text \<open>
  A tail that comes late. From part 3 of the \<open>system_prompt\<close> track, rendered to its
  end, the forward click starts part 4, the part with the \<open>chat_any\<close> gate. While it is
  typed the model loader reports success (a model has been loaded again from the sidebar)
  and starts part 1, and part 1, two short lines, is rendered to its end first:
  \<open>part_1_rendered\<close>. Then the suspended call for part 4 reaches its tail:
  \<open>stale_tail\<close>.
\<close>

definition before_chat_any :: app where
  "before_chat_any =
     snd (run parse_empty_object ([ModelLoaded, RenderDone 0] @ forward_clicks 2)
            at_model_loader)"

definition part_1_rendered :: app where
  "part_1_rendered =
     snd (run parse_empty_object [Next, ModelLoaded, RenderDone 1] before_chat_any)"

definition stale_tail :: app where
  "stale_tail = renderPart_resume 0 part_1_rendered"

text \<open>
  The \<open>chat_repeat\<close> gate is passed with two questions and two forward clicks lead to
  part 9 of the \<open>system_prompt\<close> track, the last part before the wizard.
\<close>

definition at_part_9 :: app where
  "at_part_9 =
     snd (run parse_empty_object
            ([Chat None ''Tell me a fact about the ocean.'' (Replied ''Arr.''),
              Chat None ''Why is the sky blue?'' (Replied ''Arr.'')] @ forward_clicks 2)
            at_chat_repeat)"

text \<open>
  The answers a user leaves in the wizard (the identity question fills in the time zone it
  detects), the text their identity is staged as, and an extended memory of one entry. No
  source among the three writes \<open>tutorial_tier_b\<close>; \<open>with_staged_memory\<close> puts the
  entry in the store as the script that stages it would. \<open>parse_sample\<close> is
  \<open>JSON.parse\<close> on the three texts that the store then holds or that the handler
  substitutes.
\<close>

definition staged_answers :: answers where
  "staged_answers =
     (sample_answers [''Research & Learning''])
       \<lparr>identity := \<lparr>preferred_name = ''Rishi'', location = ''Montreal'', timezone = ''EST'',
                      language_preferences = ''English''\<rparr>\<rparr>"

definition staged_identity_text :: string where
  "staged_identity_text = JSON_stringify_identity (identity staged_answers)"

definition staged_memory_text :: string where
  "staged_memory_text =
     ''{'' @ QuoteJSONString ''project'' @ '':'' @ QuoteJSONString ''Localis'' @ ''}''"

definition with_staged_memory :: "app \<Rightarrow> app" where
  "with_staged_memory s =
     s\<lparr>sessionStorage := (sessionStorage s)(''tutorial_tier_b'' \<mapsto> staged_memory_text)\<rparr>"

definition parse_sample :: "string \<Rightarrow> json option" where
  "parse_sample t =
     (if t = ''{}'' then Some (JObj [])
      else if t = staged_identity_text then
        Some (JObj [(''preferred_name'', JStr ''Rishi''), (''location'', JStr ''Montreal''),
                    (''timezone'', JStr ''EST''), (''language_preferences'', JStr ''English'')])
      else if t = staged_memory_text then Some (JObj [(''project'', JStr ''Localis'')])
      else None)"

text \<open>
  The wizard, one call of \<open>renderPart\<close> at a time. The forward click renders part 10,
  which launches the wizard; the user saves the prompt \<open>Be brief.\<close> and the wizard hands
  back to part 11; ten forward clicks, each made once the part before it is rendered to
  its end, lead to the final part of the \<open>memory\<close> track.
\<close>

definition wizard_tour :: "event list" where
  "wizard_tour =
     [Next, UsePrompt staged_answers '' Be brief. '' Save_ok, HandBack, RenderDone 0]
     @ forward_clicks 10"

definition at_staged_review :: app where
  "at_staged_review = with_staged_memory (snd (run parse_sample wizard_tour at_part_9))"

text \<open>
  The wizard overtaken. Part 10 has no step to await, so the forward button is free as
  soon as it is clicked, before the wizard shows (600 ms): a second click starts part 11,
  and once part 11 is rendered a forward click (the user's, or the one the auto-advance
  timer makes) starts part 12. The user saves the prompt while part 12 is typed, and the
  return of the wizard starts part 11 again: two calls of \<open>renderPart\<close> are suspended.
  From then on the older call reaches its tail while the newer one is typing; the tail
  clears \<open>FRT.isTyping\<close> and unlocks the forward button, and the forward click starts the
  next part: ten times, up to the final part of the \<open>memory\<close> track, whose \<open>onEnter\<close>
  hook shows the final review. The user confirms and the request fails: \<open>failed_commit\<close>.
  Then the call for part 4 of the \<open>memory\<close> track reaches its tail and the forward
  button is clicked once more: \<open>ended_uncommitted\<close>.
\<close>

definition overtaken_tour :: "event list" where
  "overtaken_tour =
     [Next, Next, RenderDone 0, Next,
      UsePrompt staged_answers '' Be brief. '' Save_ok, HandBack]
     @ concat (replicate 10 [RenderDone 0, Next])
     @ [Confirm Network_error]"

definition failed_commit :: app where
  "failed_commit = snd (run parse_sample overtaken_tour at_part_9)"

definition ended_uncommitted :: app where
  "ended_uncommitted = snd (run parse_sample [RenderDone 0, Next] failed_commit)"

text \<open>
  No baseline to repeat: whenever the gate is a \<open>chat_repeat\<close> gate, its
  \<open>baselineQuestion\<close> is \<open>null\<close>.
\<close>

definition no_baseline :: "app \<Rightarrow> bool" where
  "no_baseline s \<longleftrightarrow>
     kind (requiredAction s) \<noteq> Some chat_repeat \<or> baselineQuestion (requiredAction s) = None"

text \<open>
  A commit of the final review has succeeded: the confirm button carries the caption that
  only the success path puts on it. The gate is the pending confirm gate. The part under
  the play-head declares a gate.
\<close>

definition committed :: "app \<Rightarrow> bool" where
  "committed s \<longleftrightarrow> confirmText s = SAVED"

definition at_final_gate :: "app \<Rightarrow> bool" where
  "at_final_gate s \<longleftrightarrow>
     gate_pending s \<and> kind (requiredAction s) = Some final_review_confirm"

definition gated_here :: "app \<Rightarrow> bool" where
  "gated_here s \<longleftrightarrow>
     (case lookup_part s (partIndex s) of None \<Rightarrow> False | Some p \<Rightarrow> requires p \<noteq> None)"

text \<open>
  One call of \<open>renderPart\<close> at a time: while a part is typed the one suspended call is
  the call for the part under the play-head, and no call is suspended otherwise.
\<close>

definition one_call :: "app \<Rightarrow> bool" where
  "one_call s \<longleftrightarrow>
     (if isTyping s
      then (case lookup_part s (partIndex s) of
              None \<Rightarrow> False | Some p \<Rightarrow> inFlight s = [(partIndex s, p)])
      else inFlight s = [])"

text \<open>
  A run is orderly when the model loader and the wizard report back only while no call of
  \<open>renderPart\<close> is suspended. (The two navigation buttons start a call only when
  \<open>FRT.isTyping\<close> is false.) \<open>orderly_inv\<close> is what every event of an orderly run keeps:
  one call at a time; the first-run flag is set or the end is armed only after a commit;
  on the final part of the \<open>memory\<close> track, once it is rendered, the gate is the pending
  confirm gate until a commit; and when nothing is typed a gate is pending only if the
  part under the play-head declares one.
\<close>

definition orderly_inv :: "app \<Rightarrow> bool" where
  "orderly_inv s \<longleftrightarrow>
     stage s \<noteq> stage_boot \<and> one_call s
     \<and> ((firstRunComplete s \<or> endTutorialScheduled s) \<longrightarrow> committed s)
     \<and> ((track s = tr_memory \<and> 5 \<le> partIndex s \<and> \<not> isTyping s)
          \<longrightarrow> at_final_gate s \<or> committed s)
     \<and> ((gate_pending s \<and> \<not> isTyping s) \<longrightarrow> gated_here s)"

fun orderly :: "(string \<Rightarrow> json option) \<Rightarrow> event list \<Rightarrow> app \<Rightarrow> bool" where
  "orderly parse [] s = True"
| "orderly parse (e # evs) s =
     ((if e = ModelLoaded \<or> e = HandBack then inFlight s = [] else True)
      \<and> orderly parse evs (fire parse e s))"

section \<open>Properties of trimming\<close>

lemma hd_trim:
  assumes "trim s \<noteq> []"
  shows "\<not> isWhiteSpace (hd (trim s))"
proof -
  define d where "d = dropWhile isWhiteSpace s"
  define n where "n = length (takeWhile isWhiteSpace (rev d))"
  have "trim s = rev (drop n (rev d))"
    by (simp add: trim_def d_def n_def dropWhile_eq_drop)
  then have t: "trim s = take (length d - n) d" by (simp add: rev_drop)
  with assms have pos: "0 < length d - n" and ne: "d \<noteq> []" by auto
  from ne have "\<not> isWhiteSpace (hd d)" unfolding d_def by (rule hd_dropWhile)
  moreover have "hd (trim s) = hd d" using pos by (simp add: t hd_take)
  ultimately show ?thesis by simp
qed

lemma last_trim:
  assumes "trim s \<noteq> []"
  shows "\<not> isWhiteSpace (last (trim s))"
proof -
  let ?r = "dropWhile isWhiteSpace (rev (dropWhile isWhiteSpace s))"
  from assms have ne: "?r \<noteq> []" by (simp add: trim_def)
  then have "\<not> isWhiteSpace (hd ?r)" by (rule hd_dropWhile)
  moreover have "last (trim s) = hd ?r" using ne by (simp add: trim_def last_rev)
  ultimately show ?thesis by simp
qed

lemma trim_id:
  assumes "s \<noteq> []" "\<not> isWhiteSpace (hd s)" "\<not> isWhiteSpace (last s)"
  shows "trim s = s"
proof -
  from assms(1,2) have a: "dropWhile isWhiteSpace s = s" by (cases s) simp_all
  from assms(1,3) have "dropWhile isWhiteSpace (rev s) = rev s"
    by (cases "rev s") (simp_all add: hd_rev[symmetric] del: hd_rev)
  then show ?thesis by (simp add: trim_def a)
qed

lemma trim_trim: "trim (trim s) = trim s"
proof (cases "trim s = []")
  case True
  have "trim [] = []" by (simp add: trim_def)
  with True show ?thesis by simp
next
  case False
  then show ?thesis by (intro trim_id hd_trim last_trim)
qed

section \<open>Properties of the gate\<close>

lemma api_chat_not_pending:
  "\<not> gate_pending s \<Longrightarrow>
     requiredAction (api_chat ov iv res s) = requiredAction s
     \<and> navLocked (api_chat ov iv res s) = navLocked s"
  by (auto simp: api_chat_def Let_def gate_pending_def gate_check_def
           split: chat_result.splits)

lemma chats_not_pending:
  "\<not> gate_pending s \<Longrightarrow>
     requiredAction (chats evs s) = requiredAction s \<and> navLocked (chats evs s) = navLocked s"
proof (induction evs arbitrary: s)
  case Nil
  then show ?case by simp
next
  case (Cons e evs)
  obtain ov iv res where e: "e = (ov, iv, res)" by (cases e)
  have keep: "requiredAction (api_chat ov iv res s) = requiredAction s
              \<and> navLocked (api_chat ov iv res s) = navLocked s"
    using Cons.prems by (rule api_chat_not_pending)
  then have "\<not> gate_pending (api_chat ov iv res s)"
    using Cons.prems by (simp add: gate_pending_def)
  from Cons.IH[OF this] keep show ?case by (simp add: e)
qed

lemma api_chat_mismatch:
  assumes "kind (requiredAction s) = Some chat_repeat" "\<not> satisfied (requiredAction s)"
    and "isTutorialChat s" "\<not> isGenerating s" "mismatched s ov iv"
  shows "requiredAction (api_chat ov iv (Replied r) s) =
           (requiredAction s)\<lparr>attempts := attempts (requiredAction s) + 1,
               satisfied := soft_reached (attempts (requiredAction s) + 1)
                              (soft_after (requiredAction s))\<rparr>"
    and "navLocked (api_chat ov iv (Replied r) s) =
           (if soft_reached (attempts (requiredAction s) + 1) (soft_after (requiredAction s))
            then False else navLocked s)"
    and "bodyClasses (api_chat ov iv (Replied r) s) = bodyClasses s"
    and "isGenerating (api_chat ov iv (Replied r) s) = isGenerating s"
  using assms by (auto simp: api_chat_def gate_check_def Let_def mismatched_def)

lemma gate_check_match:
  assumes "kind (requiredAction s) = Some chat_repeat" "\<not> satisfied (requiredAction s)"
    and "toLowerCase (trim m) = gate_baseline (requiredAction s)"
  shows "satisfied (requiredAction (gate_check m s)) \<and> \<not> navLocked (gate_check m s)"
  using assms by (simp add: gate_check_def Let_def)

lemma not_pending_not_blocked:
  "\<not> gate_pending s \<Longrightarrow> fst (btnNext_click s) \<noteq> GateBlocked"
  by (auto simp: btnNext_click_def split: track.splits)

lemma typing_not_blocked: "isTyping s \<Longrightarrow> fst (btnNext_click s) \<noteq> GateBlocked"
  by (simp add: btnNext_click_def)

lemma blocked_click:
  assumes "stage s \<noteq> stage_boot" "\<not> isTyping s" "gate_pending s"
    and "kind (requiredAction s) \<noteq> Some final_review_confirm"
  shows "btnNext_click s =
           (GateBlocked,
            s\<lparr>requiredAction :=
                 (requiredAction s)\<lparr>attempts := attempts (requiredAction s) + 1\<rparr>\<rparr>)"
  using assms by (simp add: btnNext_click_def)

lemma at_chat_repeat_facts:
  "kind (requiredAction at_chat_repeat) = Some chat_repeat"
  "\<not> satisfied (requiredAction at_chat_repeat)"
  "attempts (requiredAction at_chat_repeat) = 0"
  "soft_after (requiredAction at_chat_repeat) = Some 2"
  "isTutorialChat at_chat_repeat"
  "\<not> isGenerating at_chat_repeat"
  "stage at_chat_repeat \<noteq> stage_boot"
  "\<not> isTyping at_chat_repeat"
  by code_simp+

text \<open>
  The baseline never reaches a \<open>chat_repeat\<close> gate: every event keeps \<open>no_baseline\<close>,
  because the tail of \<open>renderPart\<close> clears the baseline whenever it sets the gate and
  only the \<open>chat_any\<close> branch of the gate check stores one. So on every run from the
  start of the tutorial, in whatever order the suspended calls of \<open>renderPart\<close> reach
  their tails, whatever the user types into the prompt box at a \<open>chat_repeat\<close> gate is a
  mismatch.
\<close>

lemma requiredAction_handleNarratorHook:
  "requiredAction (handleNarratorHook h u) = requiredAction u"
  by (cases h) (simp_all add: Let_def)

lemma requiredAction_renderPart_begin:
  "requiredAction (renderPart_begin index p u) = requiredAction u"
  by (simp add: renderPart_begin_def Let_def requiredAction_handleNarratorHook
        split: option.splits)

lemma no_baseline_finish: "no_baseline (renderPart_finish p u)"
  by (simp add: no_baseline_def renderPart_finish_def Let_def split: option.splits)

lemma no_baseline_renderPart:
  assumes "requiredAction t = requiredAction s" and "no_baseline s"
  shows "no_baseline (renderPart index t)"
proof (cases "lookup_part t index")
  case None
  then show ?thesis using assms by (simp add: renderPart_def no_baseline_def)
next
  case (Some p)
  show ?thesis
  proof (cases "awaits p")
    case True
    then have "requiredAction (renderPart index t) = requiredAction s"
      using Some assms(1)
      by (simp add: renderPart_def Let_def requiredAction_renderPart_begin)
    then show ?thesis using assms(2) by (simp add: no_baseline_def)
  next
    case False
    then have "renderPart index t = renderPart_finish p (renderPart_begin index p t)"
      using Some by (simp add: renderPart_def Let_def)
    then show ?thesis by (simp add: no_baseline_finish)
  qed
qed

lemma no_baseline_next:
  assumes "no_baseline s" shows "no_baseline (next_state s)"
proof -
  have r: "no_baseline (renderPart index t)" if "requiredAction t = requiredAction s"
    for index t
    using that assms by (rule no_baseline_renderPart)
  have "no_baseline (snd (btnNext_click s))"
    unfolding btnNext_click_def
    apply (simp add: r endTutorial_def markFirstRunComplete_def Let_def split: track.splits)
    using assms apply (simp add: no_baseline_def)
    done
  then show ?thesis by (simp add: next_state_def)
qed

lemma no_baseline_back:
  assumes "no_baseline s" shows "no_baseline (btnBack_click s)"
proof -
  have r: "no_baseline (renderPart index t)" if "requiredAction t = requiredAction s"
    for index t
    using that assms by (rule no_baseline_renderPart)
  show ?thesis
    unfolding btnBack_click_def
    apply (simp add: r)
    using assms apply (simp add: no_baseline_def)
    done
qed

lemma no_baseline_resume:
  assumes "no_baseline s" shows "no_baseline (renderPart_resume k s)"
  using assms by (simp add: renderPart_resume_def no_baseline_finish)

lemma no_baseline_chat:
  assumes "no_baseline s" shows "no_baseline (api_chat ov iv res s)"
  using assms
  by (auto simp: no_baseline_def api_chat_def gate_check_def Let_def split: chat_result.splits)

lemma no_baseline_loaded:
  assumes "no_baseline s" shows "no_baseline (loadModel_loaded s)"
proof -
  have r: "no_baseline (renderPart index t)" if "requiredAction t = requiredAction s"
    for index t
    using that assms by (rule no_baseline_renderPart)
  show ?thesis
    unfolding loadModel_loaded_def using assms by (simp add: r)
qed

lemma no_baseline_usePrompt:
  assumes "no_baseline s" shows "no_baseline (btnUsePrompt_click ans v res s)"
  using assms
  by (simp add: no_baseline_def btnUsePrompt_click_def saveSystemPrompt_def Let_def
        split: save_result.splits)

lemma no_baseline_handBack:
  assumes "no_baseline s" shows "no_baseline (handBack_timeout s)"
proof -
  have r: "no_baseline (renderPart index t)" if "requiredAction t = requiredAction s"
    for index t
    using that assms by (rule no_baseline_renderPart)
  show ?thesis
    unfolding handBack_timeout_def
    apply (simp add: r Let_def)
    using assms apply (simp add: no_baseline_def)
    done
qed

lemma no_baseline_confirm:
  assumes "no_baseline s" shows "no_baseline (btnFinalReviewConfirm_click parse resp s)"
  using assms
  by (auto simp: no_baseline_def btnFinalReviewConfirm_click_def commit_failed_def
        commit_succeeded_def Let_def split: option.splits commit_response.splits)

lemma no_baseline_end:
  assumes "no_baseline s" shows "no_baseline (endTutorial_timeout s)"
  using assms
  by (simp add: no_baseline_def endTutorial_timeout_def endTutorial_def
        markFirstRunComplete_def Let_def)

lemma no_baseline_fire:
  "no_baseline s \<Longrightarrow> no_baseline (fire parse e s)"
  by (cases e)
     (simp_all add: no_baseline_next no_baseline_back no_baseline_resume no_baseline_chat
        no_baseline_loaded no_baseline_usePrompt no_baseline_handBack no_baseline_confirm
        no_baseline_end)

lemma no_baseline_run:
  "no_baseline s \<Longrightarrow> no_baseline (snd (run parse evs s))"
proof (induction evs arbitrary: s)
  case Nil
  then show ?case by simp
next
  case (Cons e evs)
  have "snd (run parse (e # evs) s) = snd (run parse evs (fire parse e s))"
    by (simp add: Let_def split: prod.splits)
  with Cons.IH[OF no_baseline_fire[OF Cons.prems, of parse e]]
  show ?case by simp
qed

lemma no_baseline_startApp: "no_baseline (startApp page_load)"
  by code_simp

lemma chat_repeat_never_matches:
  assumes "s = snd (run parse evs (startApp page_load))"
    and "kind (requiredAction s) = Some chat_repeat"
    and "trim inputValue \<noteq> []"
  shows "mismatched s None inputValue"
proof -
  have "no_baseline s" unfolding assms(1) using no_baseline_startApp by (rule no_baseline_run)
  with assms(2) have "gate_baseline (requiredAction s) = []"
    by (simp add: no_baseline_def gate_baseline_def trim_def toLowerCase_def)
  then show ?thesis
    using assms(3) by (simp add: mismatched_def promptText_of_def trim_trim toLowerCase_def)
qed


text \<open>
  C1. On the path the tutorial takes, the \<open>chat_any\<close> gate of part 4 records the question
  "What's 2+2?" as the baseline, but rendering the parts that follow resets the baseline to
  \<open>null\<close>: when the \<open>chat_repeat\<close> gate of part 7 is reached the baseline is gone, and the
  submission "  what's 2+2?  " (equal to the recorded question once trimmed and
  lowercased) counts as a mismatch. The gate stays unsatisfied with one attempt, and the
  forward click is still blocked.
\<close>

theorem chat_repeat_baseline_is_reset:
  "baselineQuestion (requiredAction
      (api_chat None ''What's 2+2?'' (Replied ''4'') at_chat_any)) = Some ''What's 2+2?''
   \<and> satisfied (requiredAction (api_chat None ''What's 2+2?'' (Replied ''4'') at_chat_any))
   \<and> track at_chat_repeat = tr_system_prompt \<and> partIndex at_chat_repeat = 7
   \<and> kind (requiredAction at_chat_repeat) = Some chat_repeat
   \<and> baselineQuestion (requiredAction at_chat_repeat) = None
   \<and> toLowerCase (trim ''  what's 2+2?  '') = toLowerCase (trim ''What's 2+2?'')
   \<and> \<not> satisfied (requiredAction
          (api_chat None ''  what's 2+2?  '' (Replied ''4'') at_chat_repeat))
   \<and> attempts (requiredAction
          (api_chat None ''  what's 2+2?  '' (Replied ''4'') at_chat_repeat)) = 1
   \<and> navLocked (api_chat None ''  what's 2+2?  '' (Replied ''4'') at_chat_repeat)
   \<and> fst (btnNext_click
          (api_chat None ''  what's 2+2?  '' (Replied ''4'') at_chat_repeat))
       = GateBlocked"
  by code_simp

text \<open>
  C3. A \<open>chat_repeat\<close> gate with \<open>soft_after = 2\<close> and no attempts yet: after one
  mismatched tutorial chat submission the gate is still pending; after the second it is
  satisfied with two attempts, the navigation bar is unlocked and the forward click is not
  blocked; and whatever chat exchanges follow, it stays so.
\<close>

theorem chat_repeat_soft_pass:
  assumes gate: "kind (requiredAction s) = Some chat_repeat" "\<not> satisfied (requiredAction s)"
      "attempts (requiredAction s) = 0" "soft_after (requiredAction s) = Some 2"
    and env: "isTutorialChat s" "\<not> isGenerating s"
    and m1: "mismatched s ov1 iv1" and m2: "mismatched s ov2 iv2"
  shows "gate_pending (api_chat ov1 iv1 (Replied r1) s)
     \<and> (let s2 = api_chat ov2 iv2 (Replied r2) (api_chat ov1 iv1 (Replied r1) s)
        in satisfied (requiredAction s2) \<and> attempts (requiredAction s2) = 2
           \<and> \<not> navLocked s2 \<and> fst (btnNext_click s2) \<noteq> GateBlocked
           \<and> (\<forall>evs. satisfied (requiredAction (chats evs s2))
                     \<and> \<not> navLocked (chats evs s2)
                     \<and> fst (btnNext_click (chats evs s2)) \<noteq> GateBlocked))"
proof -
  define s1 where "s1 = api_chat ov1 iv1 (Replied r1) s"
  define s2 where "s2 = api_chat ov2 iv2 (Replied r2) s1"
  have ra1: "requiredAction s1 = (requiredAction s)\<lparr>attempts := 1, satisfied := False\<rparr>"
    unfolding s1_def using api_chat_mismatch(1)[OF gate(1,2) env m1] gate
    by (simp add: soft_reached_def)
  have keep1: "bodyClasses s1 = bodyClasses s" "isGenerating s1 = isGenerating s"
    unfolding s1_def using api_chat_mismatch(3,4)[OF gate(1,2) env m1] by simp_all
  have pend1: "gate_pending s1"
    using ra1 gate by (simp add: gate_pending_def)
  have g1: "kind (requiredAction s1) = Some chat_repeat" "\<not> satisfied (requiredAction s1)"
    using ra1 gate by simp_all
  have env1: "isTutorialChat s1" "\<not> isGenerating s1"
    using env keep1 by (simp_all add: isTutorialChat_def)
  have m2': "mismatched s1 ov2 iv2"
    using m2 ra1 by (simp add: mismatched_def gate_baseline_def)
  have ra2: "requiredAction s2 = (requiredAction s)\<lparr>attempts := 2, satisfied := True\<rparr>"
    unfolding s2_def using api_chat_mismatch(1)[OF g1 env1 m2'] ra1 gate
    by (simp add: soft_reached_def)
  have nav2: "\<not> navLocked s2"
    unfolding s2_def using api_chat_mismatch(2)[OF g1 env1 m2'] ra1 gate
    by (simp add: soft_reached_def)
  have np2: "\<not> gate_pending s2"
    using ra2 by (simp add: gate_pending_def)
  have later: "satisfied (requiredAction (chats evs s2)) \<and> \<not> navLocked (chats evs s2)
               \<and> fst (btnNext_click (chats evs s2)) \<noteq> GateBlocked" for evs
  proof -
    from chats_not_pending[OF np2, of evs]
    have k: "requiredAction (chats evs s2) = requiredAction s2"
      "navLocked (chats evs s2) = navLocked s2" by simp_all
    then have "\<not> gate_pending (chats evs s2)" using np2 by (simp add: gate_pending_def)
    then show ?thesis using k ra2 nav2 not_pending_not_blocked by simp
  qed
  show ?thesis
    using pend1 ra2 nav2 not_pending_not_blocked[OF np2] later
    unfolding s1_def[symmetric] Let_def s2_def[symmetric] by simp
qed

theorem chat_repeat_soft_pass_witness:
  "mismatched at_chat_repeat None ''Tell me a fact about the ocean.''
   \<and> mismatched at_chat_repeat None ''  what's 2+2?  ''
   \<and> gate_pending (api_chat None ''Tell me a fact about the ocean.'' (Replied ''Arr.'')
                     at_chat_repeat)
   \<and> satisfied (requiredAction
        (api_chat None ''  what's 2+2?  '' (Replied ''Arr.'')
          (api_chat None ''Tell me a fact about the ocean.'' (Replied ''Arr.'')
             at_chat_repeat)))"
proof -
  have m1: "mismatched at_chat_repeat None ''Tell me a fact about the ocean.''"
    by code_simp
  have m2: "mismatched at_chat_repeat None ''  what's 2+2?  ''"
    by code_simp
  from chat_repeat_soft_pass[OF at_chat_repeat_facts(1-6) m1 m2, of "''Arr.''" "''Arr.''"]
  show ?thesis using m1 m2 by (simp add: Let_def)
qed

text \<open>
  C10. A forward click that the gate blocks and a mismatched tutorial chat submission add
  to the same counter \<open>attempts\<close>. For a pending \<open>chat_repeat\<close> gate with
  \<open>soft_after = 2\<close> and no attempts yet: the first blocked click makes it 1, the second 2
  (the gate is still pending, the click does not compare with \<open>soft_after\<close>), and one
  mismatched chat submission then makes it 3 and satisfies the gate: the navigation bar
  is unlocked and the forward click is no longer blocked.
\<close>

theorem blocked_clicks_count_as_attempts:
  assumes gate: "kind (requiredAction s) = Some chat_repeat" "\<not> satisfied (requiredAction s)"
      "attempts (requiredAction s) = 0" "soft_after (requiredAction s) = Some 2"
    and nav: "stage s \<noteq> stage_boot" "\<not> isTyping s"
    and env: "isTutorialChat s" "\<not> isGenerating s"
    and m: "mismatched s ov iv"
  shows "fst (btnNext_click s) = GateBlocked
     \<and> attempts (requiredAction (next_state s)) = 1
     \<and> fst (btnNext_click (next_state s)) = GateBlocked
     \<and> attempts (requiredAction (next_state (next_state s))) = 2
     \<and> gate_pending (next_state (next_state s))
     \<and> (let s3 = api_chat ov iv (Replied r) (next_state (next_state s))
        in attempts (requiredAction s3) = 3 \<and> satisfied (requiredAction s3)
           \<and> \<not> navLocked s3 \<and> fst (btnNext_click s3) \<noteq> GateBlocked)"
proof -
  have pend: "gate_pending s" using gate by (simp add: gate_pending_def)
  have c1: "btnNext_click s =
              (GateBlocked, s\<lparr>requiredAction := (requiredAction s)\<lparr>attempts := 1\<rparr>\<rparr>)"
    using blocked_click[OF nav pend] gate by simp
  define s1 where "s1 = next_state s"
  have s1: "s1 = s\<lparr>requiredAction := (requiredAction s)\<lparr>attempts := 1\<rparr>\<rparr>"
    by (simp add: s1_def next_state_def c1)
  have pend1: "gate_pending s1" using gate s1 by (simp add: gate_pending_def)
  have c2: "btnNext_click s1 =
              (GateBlocked, s\<lparr>requiredAction := (requiredAction s)\<lparr>attempts := 2\<rparr>\<rparr>)"
    using blocked_click[of s1] nav pend1 gate s1 by simp
  define s2 where "s2 = next_state s1"
  have s2: "s2 = s\<lparr>requiredAction := (requiredAction s)\<lparr>attempts := 2\<rparr>\<rparr>"
    by (simp add: s2_def next_state_def c2)
  have g2: "kind (requiredAction s2) = Some chat_repeat" "\<not> satisfied (requiredAction s2)"
    using gate s2 by simp_all
  have env2: "isTutorialChat s2" "\<not> isGenerating s2"
    using env s2 by (simp_all add: isTutorialChat_def)
  have m2: "mismatched s2 ov iv"
    using m s2 by (simp add: mismatched_def gate_baseline_def)
  define s3 where "s3 = api_chat ov iv (Replied r) s2"
  have ra3: "requiredAction s3 = (requiredAction s)\<lparr>attempts := 3, satisfied := True\<rparr>"
    unfolding s3_def using api_chat_mismatch(1)[OF g2 env2 m2] s2 gate
    by (simp add: soft_reached_def)
  have nav3: "\<not> navLocked s3"
    unfolding s3_def using api_chat_mismatch(2)[OF g2 env2 m2] s2 gate
    by (simp add: soft_reached_def)
  have "\<not> gate_pending s3" using ra3 by (simp add: gate_pending_def)
  then have nb: "fst (btnNext_click s3) \<noteq> GateBlocked" by (rule not_pending_not_blocked)
  have "gate_pending s2" using g2 by (simp add: gate_pending_def)
  then show ?thesis
    using c1 c2 s1 s2 ra3 nav3 nb
    unfolding s1_def[symmetric] s2_def[symmetric] Let_def s3_def[symmetric] by simp
qed

theorem blocked_clicks_count_as_attempts_witness:
  "mismatched at_chat_repeat None ''Tell me a fact about the ocean.''
   \<and> fst (btnNext_click at_chat_repeat) = GateBlocked
   \<and> gate_pending (next_state (next_state at_chat_repeat))
   \<and> satisfied (requiredAction
        (api_chat None ''Tell me a fact about the ocean.'' (Replied ''Arr.'')
           (next_state (next_state at_chat_repeat))))"
proof -
  have m: "mismatched at_chat_repeat None ''Tell me a fact about the ocean.''"
    by code_simp
  from blocked_clicks_count_as_attempts
         [OF at_chat_repeat_facts(1-4) at_chat_repeat_facts(7,8) at_chat_repeat_facts(5,6) m,
          of "''Arr.''"]
  show ?thesis using m by (simp add: Let_def)
qed

text \<open>
  The tail of a call of \<open>renderPart\<close> for a part that declares no \<open>requires\<close> gate
  leaves the gate state satisfied with kind \<open>null\<close>; a forward click is then not refused
  by the gate check, and no chat exchange that follows changes that. While the part is
  being typed the forward click only asks to skip.
\<close>

lemma ungated_tail_clears_gate:
  assumes "k < length (inFlight s)" and "requires (snd (inFlight s ! k)) = None"
  shows "kind (requiredAction (renderPart_resume k s)) = None
     \<and> satisfied (requiredAction (renderPart_resume k s))
     \<and> (\<forall>evs. fst (btnNext_click (chats evs (renderPart_resume k s))) \<noteq> GateBlocked)"
proof -
  have ra: "kind (requiredAction (renderPart_resume k s)) = None"
    "satisfied (requiredAction (renderPart_resume k s))"
    using assms by (simp_all add: renderPart_resume_def renderPart_finish_def Let_def)
  then have np: "\<not> gate_pending (renderPart_resume k s)" by (simp add: gate_pending_def)
  have "fst (btnNext_click (chats evs (renderPart_resume k s))) \<noteq> GateBlocked" for evs
  proof -
    from chats_not_pending[OF np, of evs]
    have "\<not> gate_pending (chats evs (renderPart_resume k s))"
      using np by (simp add: gate_pending_def)
    then show ?thesis by (rule not_pending_not_blocked)
  qed
  then show ?thesis using ra by simp
qed

lemma typing_part_never_blocks:
  assumes "lookup_part s index = Some p" and "awaits p"
  shows "fst (btnNext_click (renderPart index s)) = SkipRequested
           \<or> fst (btnNext_click (renderPart index s)) = BootStarted"
proof -
  have "isTyping (handleNarratorHook h t) = isTyping t" for h t
    by (cases h) (simp_all add: Let_def)
  then have "isTyping (renderPart index s)"
    using assms by (simp add: renderPart_def renderPart_begin_def Let_def split: option.splits)
  then show ?thesis by (simp add: btnNext_click_def)
qed

text \<open>
  C6. The claim fails when a suspended call of \<open>renderPart\<close> for a gated part runs its
  tail after the play-head has moved. From part 3 of the \<open>system_prompt\<close> track, rendered
  to its end, the forward click starts part 4, the part with the \<open>chat_any\<close> gate; while
  it is typed the model loader reports success and starts part 1, and part 1 is rendered
  to its end: the play-head is on part 1, a part with no \<open>requires\<close>, and the gate is
  satisfied with kind \<open>null\<close>. Then the call for part 4 reaches its tail and sets its
  gate: the play-head is still on part 1, nothing is being typed, no call is suspended,
  and the forward click is refused by the gate check, again and again.
\<close>

theorem stale_tail_blocks_ungated_part:
  "track before_chat_any = tr_system_prompt \<and> partIndex before_chat_any = 3
   \<and> \<not> isTyping before_chat_any \<and> inFlight before_chat_any = []
   \<and> fst (run parse_empty_object [Next, ModelLoaded, RenderDone 1] before_chat_any)
       = [Advanced]
   \<and> track part_1_rendered = tr_system_prompt \<and> partIndex part_1_rendered = 1
   \<and> lookup_part part_1_rendered 1 = Some plain \<and> requires plain = None
   \<and> kind (requiredAction part_1_rendered) = None
   \<and> satisfied (requiredAction part_1_rendered)
   \<and> map fst (inFlight part_1_rendered) = [4]
   \<and> stale_tail = fire parse_empty_object (RenderDone 0) part_1_rendered
   \<and> track stale_tail = tr_system_prompt \<and> partIndex stale_tail = 1
   \<and> \<not> isTyping stale_tail \<and> inFlight stale_tail = []
   \<and> kind (requiredAction stale_tail) = Some chat_any
   \<and> \<not> satisfied (requiredAction stale_tail)
   \<and> fst (btnNext_click stale_tail) = GateBlocked
   \<and> partIndex (next_state stale_tail) = 1
   \<and> fst (btnNext_click (next_state stale_tail)) = GateBlocked"
proof -
  have a: "track before_chat_any = tr_system_prompt" "partIndex before_chat_any = 3"
    "\<not> isTyping before_chat_any" "inFlight before_chat_any = []"
    "fst (run parse_empty_object [Next, ModelLoaded, RenderDone 1] before_chat_any)
       = [Advanced]"
    by code_simp+
  have b: "track part_1_rendered = tr_system_prompt" "partIndex part_1_rendered = 1"
    "lookup_part part_1_rendered 1 = Some plain" "requires plain = None"
    "kind (requiredAction part_1_rendered) = None"
    "satisfied (requiredAction part_1_rendered)"
    "map fst (inFlight part_1_rendered) = [4]"
    by code_simp+
  have c: "stale_tail = fire parse_empty_object (RenderDone 0) part_1_rendered"
    by (simp add: stale_tail_def)
  have d: "track stale_tail = tr_system_prompt" "partIndex stale_tail = 1"
    "\<not> isTyping stale_tail" "inFlight stale_tail = []"
    "kind (requiredAction stale_tail) = Some chat_any"
    "\<not> satisfied (requiredAction stale_tail)"
    "fst (btnNext_click stale_tail) = GateBlocked"
    "partIndex (next_state stale_tail) = 1"
    "fst (btnNext_click (next_state stale_tail)) = GateBlocked"
    by code_simp+
  show ?thesis
    by (intro conjI) (fact a b c d)+
qed

section \<open>Properties of the forward navigation\<close>

lemma dead_end:
  assumes "stage s \<noteq> stage_boot" "\<not> isTyping s" "\<not> gate_pending s"
    and "track s = tr_model" "partIndex s = 4"
  shows "btnNext_click s = (DeadEnd, s)"
  using assms by (simp add: btnNext_click_def)

lemma at_model_loader_facts:
  "stage at_model_loader \<noteq> stage_boot" "\<not> isTyping at_model_loader"
  "\<not> gate_pending at_model_loader" "track at_model_loader = tr_model"
  "partIndex at_model_loader = 4" "\<not> firstRunComplete at_model_loader"
  by code_simp+

lemma next_state_at_model_loader: "next_state at_model_loader = at_model_loader"
  by (simp add: next_state_def dead_end[OF at_model_loader_facts(1-5)])

lemma entered_at_intro:
  "track (startApp page_load) = tr_intro \<and> partIndex (startApp page_load) = 1"
  by code_simp

lemma intro_to_model_loader:
  "fst (run parse_empty_object to_model_loader (startApp page_load))
     = [Advanced, Advanced, Advanced, Advanced, TrackChanged, Advanced, Advanced, Advanced]"
  by code_simp

text \<open>
  C2, as stated, fails. The tutorial is entered at the intro track, part 1. Eight forward
  clicks, none of them with a gate pending or typing in progress (each is made once the
  part before it is rendered to its end), lead to part 4 of the model track. There the
  forward click does nothing: the state after it is the state before it, with no gate
  pending, no typing in progress and the first-run flag unset. The play-head never reaches
  the memory track by forward clicks.
\<close>

theorem forward_clicks_stop_at_model_loader:
  "track (startApp page_load) = tr_intro \<and> partIndex (startApp page_load) = 1
   \<and> fst (run parse_empty_object to_model_loader (startApp page_load))
       = [Advanced, Advanced, Advanced, Advanced, TrackChanged, Advanced, Advanced, Advanced]
   \<and> track at_model_loader = tr_model \<and> partIndex at_model_loader = 4
   \<and> \<not> isTyping at_model_loader \<and> \<not> gate_pending at_model_loader
   \<and> next_state at_model_loader = at_model_loader
   \<and> \<not> firstRunComplete at_model_loader"
  using entered_at_intro intro_to_model_loader at_model_loader_facts
    next_state_at_model_loader by simp

text \<open>
  C2, amended. From the intro track, part 1, forward clicks advance through the intro and
  model tracks up to part 4 of the model track, where any number of further forward clicks
  changes nothing. Once the model loader has reported success the play-head is on part 1
  of the \<open>system_prompt\<close> track; from there twenty forward clicks, each taken with no gate
  pending (the two chat gates satisfied by chat exchanges) and no typing in progress, go
  through every part and reach the final part of the memory track, part 5, with the
  first-run flag still unset. When that part's gate is satisfied by the confirmed commit,
  one more forward click ends the tutorial: the first-run flag is set, the overlay is hidden
  and no tutorial class is left on the body.
\<close>

theorem forward_tour_ends_tutorial:
  "fst (run parse_empty_object to_model_loader (startApp page_load))
       = [Advanced, Advanced, Advanced, Advanced, TrackChanged, Advanced, Advanced, Advanced]
   \<and> track at_model_loader = tr_model \<and> partIndex at_model_loader = 4
   \<and> (\<forall>n. (next_state ^^ n) at_model_loader = at_model_loader)
   \<and> track (loadModel_loaded at_model_loader) = tr_system_prompt
   \<and> partIndex (loadModel_loaded at_model_loader) = 1
   \<and> fst (run parse_empty_object forward_tour (loadModel_loaded at_model_loader))
       = replicate 11 Advanced @ [TrackChanged] @ replicate 3 Advanced
         @ [TrackChanged] @ replicate 4 Advanced
   \<and> track at_final_review = tr_memory \<and> partIndex at_final_review = 5
   \<and> getMaxPart at_final_review = 5
   \<and> \<not> firstRunComplete at_final_review \<and> overlayShown at_final_review
   \<and> (let t = btnFinalReviewConfirm_click parse_empty_object (Http_response True)
                 at_final_review
      in \<not> gate_pending t \<and> \<not> isTyping t
         \<and> fst (btnNext_click t) = TutorialEnded
         \<and> firstRunComplete (next_state t)
         \<and> \<not> overlayShown (next_state t)
         \<and> filter isTutorialClass (bodyClasses (next_state t)) = [])"
proof -
  have b1: "track (loadModel_loaded at_model_loader) = tr_system_prompt"
    and b2: "partIndex (loadModel_loaded at_model_loader) = 1"
    by code_simp+
  have c: "fst (run parse_empty_object forward_tour (loadModel_loaded at_model_loader))
       = replicate 11 Advanced @ [TrackChanged] @ replicate 3 Advanced
         @ [TrackChanged] @ replicate 4 Advanced"
    by code_simp
  have d: "track at_final_review = tr_memory" "partIndex at_final_review = 5"
    "getMaxPart at_final_review = 5"
    "\<not> firstRunComplete at_final_review" "overlayShown at_final_review"
    by code_simp+
  have e: "(let t = btnFinalReviewConfirm_click parse_empty_object (Http_response True)
                 at_final_review
      in \<not> gate_pending t \<and> \<not> isTyping t
         \<and> fst (btnNext_click t) = TutorialEnded
         \<and> firstRunComplete (next_state t)
         \<and> \<not> overlayShown (next_state t)
         \<and> filter isTutorialClass (bodyClasses (next_state t)) = [])"
    by code_simp
  have stuck: "(next_state ^^ n) at_model_loader = at_model_loader" for n
    by (induction n) (simp_all add: next_state_at_model_loader)
  then have f: "\<forall>n. (next_state ^^ n) at_model_loader = at_model_loader" by simp
  show ?thesis
    by (intro conjI) (fact intro_to_model_loader at_model_loader_facts f b1 b2 c d e)+
qed

section \<open>Properties of orderly runs\<close>

text \<open>
  With one call of \<open>renderPart\<close> at a time the gate belongs to the part under the
  play-head and the tutorial ends only after a commit has succeeded: every event of an
  orderly run keeps \<open>orderly_inv\<close>.
\<close>

lemma hook_frame:
  "track (handleNarratorHook h u) = track u"
  "partIndex (handleNarratorHook h u) = partIndex u"
  "isTyping (handleNarratorHook h u) = isTyping u"
  "inFlight (handleNarratorHook h u) = inFlight u"
  "stage (handleNarratorHook h u) = stage u"
  "firstRunComplete (handleNarratorHook h u) = firstRunComplete u"
  "endTutorialScheduled (handleNarratorHook h u) = endTutorialScheduled u"
  "confirmText (handleNarratorHook h u) = confirmText u"
  "requiredAction (handleNarratorHook h u) = requiredAction u"
  by (cases h; simp add: Let_def)+

lemma begin_frame:
  "track (renderPart_begin i p u) = track u"
  "partIndex (renderPart_begin i p u) = i"
  "isTyping (renderPart_begin i p u)"
  "inFlight (renderPart_begin i p u) = inFlight u"
  "stage (renderPart_begin i p u) = stage u"
  "firstRunComplete (renderPart_begin i p u) = firstRunComplete u"
  "endTutorialScheduled (renderPart_begin i p u) = endTutorialScheduled u"
  "confirmText (renderPart_begin i p u) = confirmText u"
  "requiredAction (renderPart_begin i p u) = requiredAction u"
  by (simp_all add: renderPart_begin_def Let_def hook_frame split: option.splits)

lemma finish_frame:
  "track (renderPart_finish p u) = track u"
  "partIndex (renderPart_finish p u) = partIndex u"
  "\<not> isTyping (renderPart_finish p u)"
  "inFlight (renderPart_finish p u) = inFlight u"
  "stage (renderPart_finish p u) = stage u"
  "firstRunComplete (renderPart_finish p u) = firstRunComplete u"
  "endTutorialScheduled (renderPart_finish p u) = endTutorialScheduled u"
  "confirmText (renderPart_finish p u) = confirmText u"
  by (simp_all add: renderPart_finish_def Let_def split: option.splits)

lemma lookup_part_cong:
  "track t = track u \<Longrightarrow> lookup_part t i = lookup_part u i"
  by (simp add: lookup_part_def getTrack_def)

lemma unawaited_part:
  assumes "lookup_part t i = Some p" and "\<not> awaits p"
  shows "track t = tr_system_prompt" and "requires p = None"
proof -
  from assms(1) have "Some p \<in> set (scripts (track t))"
    by (auto simp: lookup_part_def getTrack_def split: if_splits dest: nth_mem)
  with assms(2) show "track t = tr_system_prompt" and "requires p = None"
    by (cases "track t"; auto simp: plain_def hooked_def)+
qed

lemma final_part:
  assumes "lookup_part t i = Some p" and "track t = tr_memory" and "5 \<le> i"
  shows "requires p = Some \<lparr>req_kind = final_review_confirm, req_soft_after = None\<rparr>"
proof -
  from assms(1,2) have "i < 6"
    by (simp add: lookup_part_def getTrack_def split: if_splits)
  with assms(3) have "i = 5" by simp
  with assms(1,2) show ?thesis
    by (auto simp: lookup_part_def getTrack_def eval_nat_numeral)
qed

text \<open>Starting a call when none is suspended.\<close>

lemma orderly_inv_renderPart:
  assumes inv: "stage t \<noteq> stage_boot"
      "(firstRunComplete t \<or> endTutorialScheduled t) \<longrightarrow> committed t"
    and idle: "inFlight t = []"
    and keep: "lookup_part t index = None \<longrightarrow> orderly_inv t"
  shows "orderly_inv (renderPart index t)"
proof (cases "lookup_part t index")
  case None
  then show ?thesis using keep by (simp add: renderPart_def)
next
  case (Some p)
  show ?thesis
  proof (cases "awaits p")
    case True
    have r: "renderPart index t
             = (renderPart_begin index p t)
                 \<lparr>inFlight := inFlight (renderPart_begin index p t) @ [(index, p)]\<rparr>"
      using Some True by (simp add: renderPart_def Let_def)
    have "track (renderPart index t) = track t" by (simp add: r begin_frame)
    from lookup_part_cong[OF this, of index] Some
    have lp: "lookup_part (renderPart index t) index = Some p" by simp
    show ?thesis
      using inv idle lp
      by (simp add: orderly_inv_def one_call_def committed_def r begin_frame)
  next
    case False
    have r: "renderPart index t = renderPart_finish p (renderPart_begin index p t)"
      using Some False by (simp add: renderPart_def Let_def)
    have "track t = tr_system_prompt" using Some False by (rule unawaited_part)
    moreover have "requires p = None" using Some False by (rule unawaited_part)
    then have "\<not> gate_pending (renderPart_finish p (renderPart_begin index p t))"
      by (simp add: renderPart_finish_def Let_def gate_pending_def)
    ultimately show ?thesis
      using inv idle
      by (simp add: orderly_inv_def one_call_def committed_def r begin_frame finish_frame)
  qed
qed

lemma orderly_inv_resume:
  assumes "orderly_inv s" shows "orderly_inv (renderPart_resume k s)"
proof (cases "k < length (inFlight s)")
  case False
  then show ?thesis using assms by (simp add: renderPart_resume_def)
next
  case True
  with assms have ty: "isTyping s" by (auto simp: orderly_inv_def one_call_def split: if_splits)
  with assms obtain p where p: "lookup_part s (partIndex s) = Some p"
      "inFlight s = [(partIndex s, p)]"
    by (auto simp: orderly_inv_def one_call_def split: option.splits)
  with True have k: "k = 0" by simp
  have r: "renderPart_resume k s = renderPart_finish p (s\<lparr>inFlight := []\<rparr>)"
    using p k by (simp add: renderPart_resume_def)
  have gate: "at_final_gate (renderPart_finish p (s\<lparr>inFlight := []\<rparr>))"
    if "track s = tr_memory" "5 \<le> partIndex s"
  proof -
    from final_part[OF p(1) that]
    show ?thesis
      by (simp add: renderPart_finish_def Let_def at_final_gate_def gate_pending_def)
  qed
  have "track (renderPart_finish p (s\<lparr>inFlight := []\<rparr>)) = track s"
    by (simp add: finish_frame)
  from lookup_part_cong[OF this, of "partIndex s"] p(1)
  have "lookup_part (renderPart_finish p (s\<lparr>inFlight := []\<rparr>)) (partIndex s) = Some p"
    by simp
  moreover have "requires p \<noteq> None"
    if "gate_pending (renderPart_finish p (s\<lparr>inFlight := []\<rparr>))"
    using that
    by (auto simp: renderPart_finish_def Let_def gate_pending_def split: option.splits if_splits)
  ultimately have here: "gated_here (renderPart_finish p (s\<lparr>inFlight := []\<rparr>))"
    if "gate_pending (renderPart_finish p (s\<lparr>inFlight := []\<rparr>))"
    using that by (simp add: gated_here_def finish_frame)
  show ?thesis
    using assms gate here
    by (auto simp: orderly_inv_def one_call_def committed_def r finish_frame)
qed


lemma one_call_frame:
  assumes "isTyping t = isTyping s" "track t = track s" "partIndex t = partIndex s"
    "inFlight t = inFlight s"
  shows "one_call t = one_call s"
  unfolding one_call_def lookup_part_def getTrack_def assms ..

lemma gated_here_frame:
  assumes "track t = track s" "partIndex t = partIndex s"
  shows "gated_here t = gated_here s"
  unfolding gated_here_def lookup_part_def getTrack_def assms ..

lemma orderly_inv_frame:
  assumes "orderly_inv s"
    and "stage t = stage s" "isTyping t = isTyping s" "track t = track s"
      "partIndex t = partIndex s" "inFlight t = inFlight s"
      "firstRunComplete t = firstRunComplete s"
      "endTutorialScheduled t = endTutorialScheduled s" "confirmText t = confirmText s"
    and "at_final_gate s \<Longrightarrow> at_final_gate t"
    and "gate_pending t \<Longrightarrow> gate_pending s"
  shows "orderly_inv t"
proof -
  have "one_call t = one_call s" using assms(3-6) by (rule one_call_frame)
  moreover have "gated_here t = gated_here s" using assms(4,5) by (rule gated_here_frame)
  ultimately show ?thesis
    using assms unfolding orderly_inv_def committed_def by auto
qed

lemma orderly_inv_next:
  assumes "orderly_inv s" shows "orderly_inv (next_state s)"
proof -
  from assms have st: "stage s \<noteq> stage_boot" and oc: "one_call s"
    and fc: "(firstRunComplete s \<or> endTutorialScheduled s) \<longrightarrow> committed s"
    and fg: "track s = tr_memory \<and> 5 \<le> partIndex s \<and> \<not> isTyping s
             \<longrightarrow> at_final_gate s \<or> committed s"
    by (simp_all add: orderly_inv_def)
  show ?thesis
  proof (cases "isTyping s")
    case True
    then have "next_state s = s\<lparr>skipRequested := True\<rparr>"
      using st by (simp add: next_state_def btnNext_click_def)
    moreover have "orderly_inv (s\<lparr>skipRequested := True\<rparr>)"
      by (rule orderly_inv_frame[OF assms]) (simp_all add: at_final_gate_def gate_pending_def)
    ultimately show ?thesis by simp
  next
    case False
    with oc have idle: "inFlight s = []" by (simp add: one_call_def)
    have r: "orderly_inv (renderPart i t)"
      if "stage t = stage s" "firstRunComplete t = firstRunComplete s"
        "endTutorialScheduled t = endTutorialScheduled s" "confirmText t = confirmText s"
        "inFlight t = inFlight s" "lookup_part t i = None \<longrightarrow> orderly_inv t" for i t
      by (rule orderly_inv_renderPart) (use that st fc idle in \<open>simp_all add: committed_def\<close>)
    show ?thesis
    proof (cases "gate_pending s")
      case True
      have "orderly_inv (s\<lparr>requiredAction := (requiredAction s)\<lparr>attempts := n\<rparr>\<rparr>)" for n
        by (rule orderly_inv_frame[OF assms]) (simp_all add: at_final_gate_def gate_pending_def)
      then show ?thesis
        using st False True assms by (simp add: next_state_def btnNext_click_def)
    next
      case np: False
      show ?thesis
      proof (cases "track s = tr_model \<and> partIndex s = 4")
        case True
        then show ?thesis
          using st False np assms by (simp add: next_state_def btnNext_click_def)
      next
        case nd: False
        show ?thesis
        proof (cases "partIndex s < getMaxPart s")
          case True
          have "orderly_inv (renderPart (partIndex s + 1) s)"
            by (rule r) (simp_all add: assms)
          then show ?thesis
            using st False np nd True by (auto simp: next_state_def btnNext_click_def)
        next
          case last: False
          show ?thesis
          proof (cases "track s")
            case tr_intro
            have "orderly_inv (renderPart 1 (s\<lparr>track := tr_model, partIndex := 0,
                      bodyClasses := cs\<rparr>))" for cs
              by (rule r) (simp_all add: lookup_part_def getTrack_def)
            then show ?thesis
              using st False np nd last tr_intro
              by (simp add: next_state_def btnNext_click_def)
          next
            case tr_model
            have "orderly_inv (s\<lparr>bodyClasses := cs\<rparr>)" for cs
              by (rule orderly_inv_frame[OF assms]) (simp_all add: at_final_gate_def gate_pending_def)
            then show ?thesis
              using st False np nd last tr_model
              by (simp add: next_state_def btnNext_click_def)
          next
            case tr_system_prompt
            have "orderly_inv (renderPart 1 (s\<lparr>track := tr_context, partIndex := 0\<rparr>))"
              by (rule r) (simp_all add: lookup_part_def getTrack_def)
            then show ?thesis
              using st False np nd last tr_system_prompt
              by (simp add: next_state_def btnNext_click_def)
          next
            case tr_context
            have "orderly_inv (renderPart 1 (s\<lparr>track := tr_memory, partIndex := 0\<rparr>))"
              by (rule r) (simp_all add: lookup_part_def getTrack_def)
            then show ?thesis
              using st False np nd last tr_context
              by (simp add: next_state_def btnNext_click_def)
          next
            case tr_memory
            from tr_memory last have "5 \<le> partIndex s"
              by (simp add: getMaxPart_def getTrack_def)
            with fg tr_memory False np have c: "committed s" by (auto simp: at_final_gate_def)
            have "orderly_inv (endTutorial s)"
              using st idle False c np
              by (auto simp: orderly_inv_def one_call_def committed_def endTutorial_def
                    markFirstRunComplete_def Let_def gate_pending_def)
            then show ?thesis
              using st False np nd last tr_memory
              by (simp add: next_state_def btnNext_click_def)
          qed
        qed
      qed
    qed
  qed
qed

lemma orderly_inv_back:
  assumes "orderly_inv s" shows "orderly_inv (btnBack_click s)"
proof (cases "isTyping s")
  case True
  have "orderly_inv (s\<lparr>skipRequested := True\<rparr>)"
    by (rule orderly_inv_frame[OF assms]) (simp_all add: at_final_gate_def gate_pending_def)
  then show ?thesis using True by (simp add: btnBack_click_def)
next
  case False
  with assms have idle: "inFlight s = []" by (simp add: orderly_inv_def one_call_def)
  have "orderly_inv (renderPart i s)" for i
    by (rule orderly_inv_renderPart) (use assms idle in \<open>simp_all add: orderly_inv_def\<close>)
  then show ?thesis using assms False by (simp add: btnBack_click_def)
qed

lemma api_chat_frame:
  "stage (api_chat ov iv res s) = stage s"
  "isTyping (api_chat ov iv res s) = isTyping s"
  "track (api_chat ov iv res s) = track s"
  "partIndex (api_chat ov iv res s) = partIndex s"
  "inFlight (api_chat ov iv res s) = inFlight s"
  "firstRunComplete (api_chat ov iv res s) = firstRunComplete s"
  "endTutorialScheduled (api_chat ov iv res s) = endTutorialScheduled s"
  "confirmText (api_chat ov iv res s) = confirmText s"
  "at_final_gate s \<Longrightarrow> at_final_gate (api_chat ov iv res s)"
  "gate_pending (api_chat ov iv res s) \<Longrightarrow> gate_pending s"
  by (auto simp: api_chat_def gate_check_def Let_def at_final_gate_def gate_pending_def
        split: chat_result.splits if_splits)

lemma orderly_inv_chat:
  assumes "orderly_inv s" shows "orderly_inv (api_chat ov iv res s)"
  by (rule orderly_inv_frame[OF assms]) (simp_all add: api_chat_frame)

lemma orderly_inv_loaded:
  assumes "orderly_inv s" and "inFlight s = []" shows "orderly_inv (loadModel_loaded s)"
proof -
  have "orderly_inv (renderPart 1 t)"
    if "stage t = stage s" "firstRunComplete t = firstRunComplete s"
      "endTutorialScheduled t = endTutorialScheduled s" "confirmText t = confirmText s"
      "inFlight t = inFlight s" "track t = tr_system_prompt" for t
    by (rule orderly_inv_renderPart)
       (use that assms in \<open>simp_all add: orderly_inv_def committed_def lookup_part_def getTrack_def\<close>)
  then show ?thesis using assms(1) by (simp add: loadModel_loaded_def)
qed

lemma orderly_inv_usePrompt:
  assumes "orderly_inv s" shows "orderly_inv (btnUsePrompt_click ans v res s)"
  by (rule orderly_inv_frame[OF assms])
     (auto simp: btnUsePrompt_click_def saveSystemPrompt_def Let_def at_final_gate_def
        gate_pending_def split: save_result.splits if_splits)

lemma orderly_inv_handBack:
  assumes "orderly_inv s" and "inFlight s = []" shows "orderly_inv (handBack_timeout s)"
proof -
  have r: "orderly_inv (renderPart 11 t)"
    if "stage t = stage s" "firstRunComplete t = firstRunComplete s"
      "endTutorialScheduled t = endTutorialScheduled s" "confirmText t = confirmText s"
      "inFlight t = inFlight s" "track t = tr_system_prompt" for t
    by (rule orderly_inv_renderPart)
       (use that assms in \<open>simp_all add: orderly_inv_def committed_def lookup_part_def getTrack_def\<close>)
  have other: "orderly_inv (s\<lparr>handBackScheduled := False, rpgShown := False, alerts := a\<rparr>)" for a
    by (rule orderly_inv_frame[OF assms(1)]) (simp_all add: at_final_gate_def gate_pending_def)
  show ?thesis using assms(1) by (simp add: handBack_timeout_def Let_def r other)
qed

lemma confirm_frame:
  "stage (btnFinalReviewConfirm_click parse resp s) = stage s"
  "isTyping (btnFinalReviewConfirm_click parse resp s) = isTyping s"
  "track (btnFinalReviewConfirm_click parse resp s) = track s"
  "partIndex (btnFinalReviewConfirm_click parse resp s) = partIndex s"
  "inFlight (btnFinalReviewConfirm_click parse resp s) = inFlight s"
  "firstRunComplete (btnFinalReviewConfirm_click parse resp s) = firstRunComplete s"
  by (simp_all add: btnFinalReviewConfirm_click_def commit_failed_def commit_succeeded_def
        Let_def split: option.splits commit_response.splits)

lemma orderly_inv_confirm:
  assumes "orderly_inv s" shows "orderly_inv (btnFinalReviewConfirm_click parse resp s)"
proof -
  have oc: "one_call (btnFinalReviewConfirm_click parse resp s) = one_call s"
    by (rule one_call_frame) (simp_all add: confirm_frame)
  have gh: "gated_here (btnFinalReviewConfirm_click parse resp s) = gated_here s"
    by (rule gated_here_frame) (simp_all add: confirm_frame)
  have rest: "(endTutorialScheduled (btnFinalReviewConfirm_click parse resp s)
                 \<longrightarrow> endTutorialScheduled s \<or> committed (btnFinalReviewConfirm_click parse resp s))
     \<and> (committed s \<longrightarrow> committed (btnFinalReviewConfirm_click parse resp s))
     \<and> (at_final_gate s \<longrightarrow> at_final_gate (btnFinalReviewConfirm_click parse resp s)
           \<or> committed (btnFinalReviewConfirm_click parse resp s))
     \<and> (gate_pending (btnFinalReviewConfirm_click parse resp s) \<longrightarrow> gate_pending s)"
    by (auto simp: btnFinalReviewConfirm_click_def commit_failed_def commit_succeeded_def
          committed_def at_final_gate_def gate_pending_def
          Let_def split: option.splits commit_response.splits)
  show ?thesis
    using assms rest unfolding orderly_inv_def oc gh confirm_frame by blast
qed

lemma orderly_inv_timeout:
  assumes "orderly_inv s" shows "orderly_inv (endTutorial_timeout s)"
proof (cases "endTutorialScheduled s")
  case False
  then show ?thesis using assms by (simp add: endTutorial_timeout_def)
next
  case True
  with assms have c: "committed s" by (simp add: orderly_inv_def)
  have e: "endTutorial_timeout s = endTutorial (s\<lparr>endTutorialScheduled := False\<rparr>)"
    using True by (simp add: endTutorial_timeout_def)
  have oc: "one_call (endTutorial (s\<lparr>endTutorialScheduled := False\<rparr>)) = one_call s"
    by (rule one_call_frame) (simp_all add: endTutorial_def markFirstRunComplete_def Let_def)
  have gh: "gated_here (endTutorial (s\<lparr>endTutorialScheduled := False\<rparr>)) = gated_here s"
    by (rule gated_here_frame) (simp_all add: endTutorial_def markFirstRunComplete_def Let_def)
  have "orderly_inv (endTutorial (s\<lparr>endTutorialScheduled := False\<rparr>))"
    unfolding orderly_inv_def oc gh using assms c
    by (simp add: orderly_inv_def endTutorial_def markFirstRunComplete_def Let_def committed_def
          gate_pending_def)
  then show ?thesis by (simp add: e)
qed

lemma orderly_inv_fire:
  assumes "orderly_inv s" and "e = ModelLoaded \<or> e = HandBack \<Longrightarrow> inFlight s = []"
  shows "orderly_inv (fire parse e s)"
  using assms
  by (cases e)
     (simp_all add: orderly_inv_next orderly_inv_back orderly_inv_resume orderly_inv_chat orderly_inv_loaded
        orderly_inv_usePrompt orderly_inv_handBack orderly_inv_confirm orderly_inv_timeout)

lemma orderly_inv_run:
  "orderly_inv s \<Longrightarrow> orderly parse evs s \<Longrightarrow> orderly_inv (snd (run parse evs s))"
proof (induction evs arbitrary: s)
  case Nil
  then show ?case by simp
next
  case (Cons e evs)
  have "snd (run parse (e # evs) s) = snd (run parse evs (fire parse e s))"
    by (simp add: Let_def split: prod.splits)
  moreover have "orderly_inv (fire parse e s)"
    using Cons.prems by (intro orderly_inv_fire) (auto split: if_splits)
  moreover have "orderly parse evs (fire parse e s)" using Cons.prems(2) by simp
  ultimately show ?case using Cons.IH by simp
qed

lemma orderly_inv_startApp: "orderly_inv (startApp page_load)"
  by code_simp

text \<open>
  On an orderly run, wherever the play-head stands on a part that declares no \<open>requires\<close>
  gate, the forward click is not refused by the gate check.
\<close>

lemma orderly_run_never_blocks_ungated:
  assumes "orderly parse evs (startApp page_load)"
    and "lookup_part (snd (run parse evs (startApp page_load)))
           (partIndex (snd (run parse evs (startApp page_load)))) = Some p"
    and "requires p = None"
  shows "fst (btnNext_click (snd (run parse evs (startApp page_load)))) \<noteq> GateBlocked"
proof (cases "isTyping (snd (run parse evs (startApp page_load)))")
  case True
  then show ?thesis by (rule typing_not_blocked)
next
  case False
  from orderly_inv_run[OF orderly_inv_startApp assms(1)] False assms(2,3)
  have "\<not> gate_pending (snd (run parse evs (startApp page_load)))"
    by (auto simp: orderly_inv_def gated_here_def)
  then show ?thesis by (rule not_pending_not_blocked)
qed

text \<open>
  On an orderly run the first-run flag is set only if the confirm button has been through
  the success path of its handler.
\<close>

lemma orderly_run_ends_after_commit:
  assumes "orderly parse evs (startApp page_load)"
    and "firstRunComplete (snd (run parse evs (startApp page_load)))"
  shows "committed (snd (run parse evs (startApp page_load)))"
  using orderly_inv_run[OF orderly_inv_startApp assms(1)] assms(2) by (simp add: orderly_inv_def)

text \<open>
  The forward tour, followed by a commit that succeeds and the delayed end, is such a run.
\<close>

lemma forward_tour_is_orderly:
  "orderly parse_empty_object
     (to_model_loader @ ModelLoaded # forward_tour @ [Confirm (Http_response True), EndTimer])
     (startApp page_load)
   \<and> firstRunComplete
       (snd (run parse_empty_object
          (to_model_loader @ ModelLoaded # forward_tour
             @ [Confirm (Http_response True), EndTimer])
          (startApp page_load)))"
  by code_simp

section \<open>Properties of the final commit\<close>

lemma build_payload_frame:
  assumes "sessionStorage s' = sessionStorage s"
    and "tutorialSystemPromptText s' = tutorialSystemPromptText s"
  shows "build_payload parse s' = build_payload parse s"
  unfolding build_payload_def stagedSystemPrompt_def assms ..

lemma build_payload_button:
  "build_payload parse (s\<lparr>confirmDisabled := d, confirmText := t\<rparr>) = build_payload parse s"
  by (rule build_payload_frame) simp_all

lemma click_failed:
  assumes "commit_fails parse resp s"
  shows "btnFinalReviewConfirm_click parse resp s =
           commit_failed (confirmText s)
             (s\<lparr>confirmDisabled := True, confirmText := SAVING,
                commits := (case build_payload parse s of None \<Rightarrow> commits s
                            | Some body \<Rightarrow> commits s @ [body])\<rparr>)"
proof (cases "build_payload parse s")
  case None
  then show ?thesis
    by (simp add: btnFinalReviewConfirm_click_def Let_def build_payload_button)
next
  case (Some body)
  with assms have "resp \<noteq> Http_response True" by (simp add: commit_fails_def)
  then show ?thesis using Some
    by (cases resp) (simp_all add: btnFinalReviewConfirm_click_def Let_def build_payload_button)
qed

lemma click_succeeded:
  assumes "build_payload parse s = Some body"
  shows "btnFinalReviewConfirm_click parse (Http_response True) s =
           commit_succeeded (s\<lparr>confirmDisabled := True, confirmText := SAVING,
                               commits := commits s @ [body]\<rparr>)"
  using assms by (simp add: btnFinalReviewConfirm_click_def Let_def build_payload_button)

text \<open>
  The confirm button gets the caption of the success path only by a click whose request
  was built and accepted: no other event writes the caption, and a failing click restores
  the one it found.
\<close>

lemma confirmText_renderPart: "confirmText (renderPart index t) = confirmText t"
  by (simp add: renderPart_def Let_def begin_frame finish_frame split: option.splits)

lemma confirmText_fire:
  assumes "\<forall>resp. e \<noteq> Confirm resp"
  shows "confirmText (fire parse e s) = confirmText s"
proof (cases e)
  case Next
  then show ?thesis
    by (simp add: next_state_def btnNext_click_def confirmText_renderPart endTutorial_def
          markFirstRunComplete_def Let_def split: track.splits)
next
  case Back
  then show ?thesis by (simp add: btnBack_click_def confirmText_renderPart)
next
  case (RenderDone k)
  then show ?thesis by (simp add: renderPart_resume_def finish_frame)
next
  case (Chat ov iv res)
  then show ?thesis by (simp add: api_chat_frame)
next
  case ModelLoaded
  then show ?thesis by (simp add: loadModel_loaded_def confirmText_renderPart)
next
  case (UsePrompt ans v res)
  then show ?thesis
    by (simp add: btnUsePrompt_click_def saveSystemPrompt_def Let_def split: save_result.splits)
next
  case HandBack
  then show ?thesis by (simp add: handBack_timeout_def Let_def confirmText_renderPart)
next
  case (Confirm resp)
  with assms show ?thesis by simp
next
  case EndTimer
  then show ?thesis
    by (simp add: endTutorial_timeout_def endTutorial_def markFirstRunComplete_def Let_def)
qed

lemma committed_needs_success:
  assumes "committed (fire parse e s)" and "\<not> committed s"
  shows "\<exists>resp. e = Confirm resp \<and> \<not> commit_fails parse resp s"
proof (cases "\<forall>resp. e \<noteq> Confirm resp")
  case True
  from confirmText_fire[OF this, of parse s] assms show ?thesis by (simp add: committed_def)
next
  case False
  then obtain resp where e: "e = Confirm resp" by blast
  have "\<not> commit_fails parse resp s"
  proof
    assume "commit_fails parse resp s"
    from click_failed[OF this]
    have "confirmText (btnFinalReviewConfirm_click parse resp s) = confirmText s"
      by (simp add: commit_failed_def Let_def)
    with assms e show False by (simp add: committed_def)
  qed
  with e show ?thesis by blast
qed

text \<open>
  On a page without the inline error element the \<open>catch\<close> block raises an alert with the
  same text instead.
\<close>

lemma commit_failure_without_error_element:
  assumes "commit_fails parse resp s" and "\<not> hasFinalReviewError s"
  shows "alerts (btnFinalReviewConfirm_click parse resp s)
           = alerts s @ [''Failed to save. Please try again.'']
     \<and> \<not> confirmDisabled (btnFinalReviewConfirm_click parse resp s)
     \<and> sessionStorage (btnFinalReviewConfirm_click parse resp s) = sessionStorage s"
  using assms(2) by (simp add: click_failed[OF assms(1)] commit_failed_def Let_def)

text \<open>
  The handler of the confirm button on its own. When the commit fails, on a page that has
  the inline error element: the confirm button is enabled again with its caption restored,
  the inline error is shown with its retry text and no alert is raised, the review overlay
  is as open as it was, and the staged data is unchanged (the staging store with the staged
  identity and extended memory, the active prompt text, and therefore the request body a
  retry will send); the gate is not touched, the end of the tutorial is not armed and the
  first-run flag is not set. A retry that the endpoint accepts sends that same body,
  satisfies the gate and arms the end of the tutorial, which then sets the first-run flag.
\<close>

lemma commit_failure_frame:
  assumes fails: "commit_fails parse resp s" and page: "hasFinalReviewError s"
  shows "(let s' = btnFinalReviewConfirm_click parse resp s
          in \<not> confirmDisabled s' \<and> confirmText s' = confirmText s
             \<and> finalReviewErrorShown s'
             \<and> finalReviewErrorText s' = ''Failed to save. Please try again.''
             \<and> alerts s' = alerts s
             \<and> finalReviewShown s' = finalReviewShown s
             \<and> sessionStorage s' = sessionStorage s
             \<and> tutorialSystemPromptText s' = tutorialSystemPromptText s
             \<and> build_payload parse s' = build_payload parse s
             \<and> requiredAction s' = requiredAction s
             \<and> endTutorialScheduled s' = endTutorialScheduled s
             \<and> firstRunComplete s' = firstRunComplete s
             \<and> bodyClasses s' = bodyClasses s \<and> overlayShown s' = overlayShown s
             \<and> (\<forall>body. build_payload parse s = Some body \<longrightarrow>
                  (let s'' = btnFinalReviewConfirm_click parse (Http_response True) s'
                   in last (commits s'') = body \<and> endTutorialScheduled s''
                      \<and> satisfied (requiredAction s'')
                      \<and> firstRunComplete (endTutorial_timeout s''))))"
proof -
  define s' where "s' = btnFinalReviewConfirm_click parse resp s"
  have s': "s' = commit_failed (confirmText s)
             (s\<lparr>confirmDisabled := True, confirmText := SAVING,
                commits := (case build_payload parse s of None \<Rightarrow> commits s
                            | Some body \<Rightarrow> commits s @ [body])\<rparr>)"
    unfolding s'_def by (rule click_failed[OF fails])
  have bp: "build_payload parse s' = build_payload parse s"
    by (rule build_payload_frame) (simp_all add: s' commit_failed_def Let_def)
  have frame: "\<not> confirmDisabled s'" "confirmText s' = confirmText s"
      "finalReviewErrorShown s'"
      "finalReviewErrorText s' = ''Failed to save. Please try again.''"
      "alerts s' = alerts s"
      "finalReviewShown s' = finalReviewShown s"
      "sessionStorage s' = sessionStorage s"
      "tutorialSystemPromptText s' = tutorialSystemPromptText s"
      "requiredAction s' = requiredAction s"
      "endTutorialScheduled s' = endTutorialScheduled s"
      "firstRunComplete s' = firstRunComplete s"
      "bodyClasses s' = bodyClasses s" "overlayShown s' = overlayShown s"
    using page by (simp_all add: s' commit_failed_def Let_def)
  have retry: "last (commits (btnFinalReviewConfirm_click parse (Http_response True) s')) = body
         \<and> endTutorialScheduled (btnFinalReviewConfirm_click parse (Http_response True) s')
         \<and> satisfied (requiredAction (btnFinalReviewConfirm_click parse (Http_response True) s'))
         \<and> firstRunComplete
             (endTutorial_timeout (btnFinalReviewConfirm_click parse (Http_response True) s'))"
    if "build_payload parse s = Some body" for body
  proof -
    from that bp have "build_payload parse s' = Some body" by simp
    from click_succeeded[OF this] show ?thesis
      by (simp add: commit_succeeded_def endTutorial_timeout_def endTutorial_def
            markFirstRunComplete_def Let_def)
  qed
  show ?thesis
    unfolding s'_def[symmetric] Let_def
    by (intro conjI allI impI) (simp_all add: frame bp retry)
qed

text \<open>
  So it is on the run that goes through the wizard one call of \<open>renderPart\<close> at a time:
  at the final review the store holds the identity and the prompt that the wizard has
  staged and the extended memory; the failing commit leaves the review open with the
  error shown and the button enabled, the store and the prompt as they were, and the
  tutorial not ended; the retry sends the body built from them and ends the tutorial.
\<close>

lemma staged_review_body:
  "build_payload parse_sample at_staged_review
     = Some \<lparr>system_prompt = ''Be brief.'',
             tier_a = [(''preferred_name'', JStr ''Rishi''), (''location'', JStr ''Montreal''),
                       (''timezone'', JStr ''EST''),
                       (''language_preferences'', JStr ''English'')],
             tier_b = [(''project'', JStr ''Localis'')],
             defaults = JObj [], tutorial_completed = True\<rparr>"
  by code_simp

lemma commit_failure_at_staged_review:
  "track at_staged_review = tr_memory \<and> partIndex at_staged_review = 5
   \<and> inFlight at_staged_review = []
   \<and> sessionStorage at_staged_review ''rpg_system_prompt'' = Some ''Be brief.''
   \<and> sessionStorage at_staged_review ''rpg_tier_a'' = Some staged_identity_text
   \<and> sessionStorage at_staged_review ''tutorial_tier_b'' = Some staged_memory_text
   \<and> tutorialSystemPromptText at_staged_review = ''Be brief.''
   \<and> finalReviewShown at_staged_review
   \<and> finalReviewShown (btnFinalReviewConfirm_click parse_sample Network_error at_staged_review)
   \<and> finalReviewErrorShown
        (btnFinalReviewConfirm_click parse_sample Network_error at_staged_review)
   \<and> \<not> confirmDisabled
        (btnFinalReviewConfirm_click parse_sample Network_error at_staged_review)
   \<and> sessionStorage (btnFinalReviewConfirm_click parse_sample Network_error at_staged_review)
       = sessionStorage at_staged_review
   \<and> tutorialSystemPromptText
        (btnFinalReviewConfirm_click parse_sample Network_error at_staged_review)
       = ''Be brief.''
   \<and> \<not> endTutorialScheduled
        (btnFinalReviewConfirm_click parse_sample Network_error at_staged_review)
   \<and> \<not> firstRunComplete
        (btnFinalReviewConfirm_click parse_sample Network_error at_staged_review)
   \<and> last (commits
        (btnFinalReviewConfirm_click parse_sample (Http_response True)
           (btnFinalReviewConfirm_click parse_sample Network_error at_staged_review)))
       = \<lparr>system_prompt = ''Be brief.'',
           tier_a = [(''preferred_name'', JStr ''Rishi''), (''location'', JStr ''Montreal''),
                     (''timezone'', JStr ''EST''),
                     (''language_preferences'', JStr ''English'')],
           tier_b = [(''project'', JStr ''Localis'')],
           defaults = JObj [], tutorial_completed = True\<rparr>
   \<and> firstRunComplete
        (endTutorial_timeout
           (btnFinalReviewConfirm_click parse_sample (Http_response True)
              (btnFinalReviewConfirm_click parse_sample Network_error at_staged_review)))"
proof -
  have h1: "commit_fails parse_sample Network_error at_staged_review"
    by (simp add: commit_fails_def)
  have h2: "hasFinalReviewError at_staged_review"
    by code_simp
  have h3: "track at_staged_review = tr_memory" "partIndex at_staged_review = 5"
    "inFlight at_staged_review = []"
    "sessionStorage at_staged_review ''rpg_system_prompt'' = Some ''Be brief.''"
    "sessionStorage at_staged_review ''rpg_tier_a'' = Some staged_identity_text"
    "sessionStorage at_staged_review ''tutorial_tier_b'' = Some staged_memory_text"
    "tutorialSystemPromptText at_staged_review = ''Be brief.''"
    "finalReviewShown at_staged_review"
    "\<not> endTutorialScheduled at_staged_review"
    "\<not> firstRunComplete at_staged_review"
    by code_simp+
  note r = commit_failure_frame[OF h1 h2, unfolded Let_def]
  from r staged_review_body
  have retry: "last (commits
        (btnFinalReviewConfirm_click parse_sample (Http_response True)
           (btnFinalReviewConfirm_click parse_sample Network_error at_staged_review)))
       = \<lparr>system_prompt = ''Be brief.'',
           tier_a = [(''preferred_name'', JStr ''Rishi''), (''location'', JStr ''Montreal''),
                     (''timezone'', JStr ''EST''),
                     (''language_preferences'', JStr ''English'')],
           tier_b = [(''project'', JStr ''Localis'')],
           defaults = JObj [], tutorial_completed = True\<rparr>"
    "firstRunComplete
        (endTutorial_timeout
           (btnFinalReviewConfirm_click parse_sample (Http_response True)
              (btnFinalReviewConfirm_click parse_sample Network_error at_staged_review)))"
    by blast+
  from r h3 have kept:
    "finalReviewShown (btnFinalReviewConfirm_click parse_sample Network_error at_staged_review)"
    "finalReviewErrorShown
        (btnFinalReviewConfirm_click parse_sample Network_error at_staged_review)"
    "\<not> confirmDisabled
        (btnFinalReviewConfirm_click parse_sample Network_error at_staged_review)"
    "sessionStorage (btnFinalReviewConfirm_click parse_sample Network_error at_staged_review)
       = sessionStorage at_staged_review"
    "tutorialSystemPromptText
        (btnFinalReviewConfirm_click parse_sample Network_error at_staged_review)
       = ''Be brief.''"
    "\<not> endTutorialScheduled
        (btnFinalReviewConfirm_click parse_sample Network_error at_staged_review)"
    "\<not> firstRunComplete
        (btnFinalReviewConfirm_click parse_sample Network_error at_staged_review)"
    by simp_all
  show ?thesis
    by (intro conjI) (fact h3 kept retry)+
qed

text \<open>
  C9. The tutorial ends although the commit has failed, when a suspended call of
  \<open>renderPart\<close> runs its tail late. On the run that overtakes the wizard, the play-head is
  on the final part of the \<open>memory\<close> track with the review open; the store holds the
  prompt and the identity that the wizard has staged; the user confirms and the request
  fails: the error is shown, the button is enabled again, the end of the tutorial is not
  armed and the first-run flag is not set. Then the call of \<open>renderPart\<close> for part 4 of
  the track, a part with no \<open>requires\<close>, reaches its tail and clears the gate; the forward click ends
  the tutorial. The first-run flag is set and the overlay is gone, the confirm button has
  never been through the success path, the one request made is the one that failed, and
  the staged data is still in the store, uncommitted.
\<close>

theorem tutorial_ends_after_failed_commit:
  "track at_part_9 = tr_system_prompt \<and> partIndex at_part_9 = 9
   \<and> \<not> isTyping at_part_9 \<and> inFlight at_part_9 = []
   \<and> fst (run parse_sample overtaken_tour at_part_9)
       = replicate 4 Advanced @ [TrackChanged] @ replicate 3 Advanced
         @ [TrackChanged] @ replicate 4 Advanced
   \<and> track failed_commit = tr_memory \<and> partIndex failed_commit = 5
   \<and> map fst (inFlight failed_commit) = [4, 5]
   \<and> finalReviewShown failed_commit \<and> finalReviewErrorShown failed_commit
   \<and> \<not> confirmDisabled failed_commit
   \<and> confirmText failed_commit = Caption ''LOOKS GOOD''
   \<and> sessionStorage failed_commit ''rpg_system_prompt'' = Some ''Be brief.''
   \<and> sessionStorage failed_commit ''rpg_tier_a'' = Some staged_identity_text
   \<and> commits failed_commit
       = [\<lparr>system_prompt = ''Be brief.'',
            tier_a = [(''preferred_name'', JStr ''Rishi''), (''location'', JStr ''Montreal''),
                      (''timezone'', JStr ''EST''),
                      (''language_preferences'', JStr ''English'')],
            tier_b = [], defaults = JObj [], tutorial_completed = True\<rparr>]
   \<and> \<not> endTutorialScheduled failed_commit \<and> \<not> firstRunComplete failed_commit
   \<and> fst (run parse_sample [RenderDone 0, Next] failed_commit) = [TutorialEnded]
   \<and> firstRunComplete ended_uncommitted \<and> \<not> overlayShown ended_uncommitted
   \<and> confirmText ended_uncommitted = Caption ''LOOKS GOOD''
   \<and> commits ended_uncommitted = commits failed_commit
   \<and> sessionStorage ended_uncommitted ''rpg_tier_a'' = Some staged_identity_text"
proof -
  have a: "track at_part_9 = tr_system_prompt" "partIndex at_part_9 = 9"
    "\<not> isTyping at_part_9" "inFlight at_part_9 = []"
    by code_simp+
  have b: "fst (run parse_sample overtaken_tour at_part_9)
       = replicate 4 Advanced @ [TrackChanged] @ replicate 3 Advanced
         @ [TrackChanged] @ replicate 4 Advanced"
    by code_simp
  have c: "track failed_commit = tr_memory" "partIndex failed_commit = 5"
    "map fst (inFlight failed_commit) = [4, 5]"
    "finalReviewShown failed_commit" "finalReviewErrorShown failed_commit"
    "\<not> confirmDisabled failed_commit"
    "confirmText failed_commit = Caption ''LOOKS GOOD''"
    "sessionStorage failed_commit ''rpg_system_prompt'' = Some ''Be brief.''"
    "sessionStorage failed_commit ''rpg_tier_a'' = Some staged_identity_text"
    by code_simp+
  have d: "commits failed_commit
       = [\<lparr>system_prompt = ''Be brief.'',
            tier_a = [(''preferred_name'', JStr ''Rishi''), (''location'', JStr ''Montreal''),
                      (''timezone'', JStr ''EST''),
                      (''language_preferences'', JStr ''English'')],
            tier_b = [], defaults = JObj [], tutorial_completed = True\<rparr>]"
    by code_simp
  have e: "\<not> endTutorialScheduled failed_commit" "\<not> firstRunComplete failed_commit"
    "fst (run parse_sample [RenderDone 0, Next] failed_commit) = [TutorialEnded]"
    "firstRunComplete ended_uncommitted" "\<not> overlayShown ended_uncommitted"
    "confirmText ended_uncommitted = Caption ''LOOKS GOOD''"
    "commits ended_uncommitted = commits failed_commit"
    "sessionStorage ended_uncommitted ''rpg_tier_a'' = Some staged_identity_text"
    by code_simp+
  show ?thesis
    by (intro conjI) (fact a b c d e)+
qed

section \<open>Properties of the typewriter\<close>

lemma typeChar_completes:
  "i \<le> length str \<Longrightarrow> textContent el = take i str \<Longrightarrow>
     textContent (fst (typeChar str shouldSkip t i el)) = str
     \<and> \<not> cursorActive (fst (typeChar str shouldSkip t i el))
     \<and> fst (snd (typeChar str shouldSkip t i el)) = Resolved"
proof (induction str shouldSkip t i el rule: typeChar.induct)
  case (1 str shouldSkip t i el)
  show ?case
  proof (cases "shouldSkip t")
    case True
    then show ?thesis by (simp add: typeChar.simps)
  next
    case False
    show ?thesis
    proof (cases "i < length str")
      case True
      have "textContent (el\<lparr>textContent := textContent el @ [str ! i]\<rparr>) = take (i + 1) str"
        using True "1.prems" by (simp add: take_Suc_conv_app_nth)
      with "1.IH"[OF False True] True
      have "textContent (fst (typeChar str shouldSkip (t + 1) (i + 1)
                (el\<lparr>textContent := textContent el @ [str ! i]\<rparr>))) = str
        \<and> \<not> cursorActive (fst (typeChar str shouldSkip (t + 1) (i + 1)
                (el\<lparr>textContent := textContent el @ [str ! i]\<rparr>)))
        \<and> fst (snd (typeChar str shouldSkip (t + 1) (i + 1)
                (el\<lparr>textContent := textContent el @ [str ! i]\<rparr>))) = Resolved"
        by simp
      then show ?thesis
        using False True by (subst (1 2 3) typeChar.simps) simp
    next
      case nl: False
      with "1.prems" have "textContent el = str" by simp
      then show ?thesis using False nl by (simp add: typeChar.simps)
    qed
  qed
qed

lemma typeWriter_completes:
  "textContent (fst (typeWriter element str shouldSkip t)) = str
   \<and> \<not> cursorActive (fst (typeWriter element str shouldSkip t))
   \<and> fst (snd (typeWriter element str shouldSkip t)) = Resolved"
proof (cases "shouldSkip t")
  case True
  then show ?thesis by (simp add: typeWriter_def)
next
  case False
  then show ?thesis
    using typeChar_completes[of 0 str "element\<lparr>cursorActive := True, textContent := []\<rparr>" shouldSkip t]
    by (simp add: typeWriter_def)
qed

lemma type_segments_completes:
  "map textContent (fst (type_segments isInstant shouldSkip segs t)) = map seg_text segs
   \<and> map cursorActive (fst (type_segments isInstant shouldSkip segs t)) = map (\<lambda>_. False) segs
   \<and> fst (snd (type_segments isInstant shouldSkip segs t)) = Resolved"
proof (induction segs arbitrary: t)
  case Nil
  then show ?case by simp
next
  case (Cons seg segs)
  show ?case
  proof (cases isInstant)
    case True
    obtain spans r t' where ts: "type_segments True shouldSkip segs t = (spans, r, t')"
      by (metis prod_cases3)
    with Cons.IH[of t] True
    have "map textContent spans = map seg_text segs"
      "map cursorActive spans = map (\<lambda>_. False) segs" "r = Resolved" by simp_all
    then show ?thesis using True ts by (simp add: Let_def)
  next
    case False
    obtain span' r t' where tw:
      "typeWriter \<lparr>textContent = [], cursorActive = False\<rparr> (seg_text seg) shouldSkip t = (span', r, t')"
      by (metis prod_cases3)
    with typeWriter_completes[of "\<lparr>textContent = [], cursorActive = False\<rparr>" "seg_text seg" shouldSkip t]
    have s: "textContent span' = seg_text seg" "\<not> cursorActive span'" "r = Resolved" by simp_all
    obtain spans r2 t2 where ts: "type_segments False shouldSkip segs t' = (spans, r2, t2)"
      by (metis prod_cases3)
    with Cons.IH[of t'] False
    have "map textContent spans = map seg_text segs"
      "map cursorActive spans = map (\<lambda>_. False) segs" "r2 = Resolved" by simp_all
    then show ?thesis using False tw s ts by (simp add: Let_def)
  qed
qed

lemma render_line_completes:
  "map textContent (fst (render_line False segments shouldSkip t)) = map seg_text segments
   \<and> map cursorActive (fst (render_line False segments shouldSkip t)) = map (\<lambda>_. False) segments
   \<and> fst (snd (render_line False segments shouldSkip t)) = Resolved"
  using type_segments_completes[of False shouldSkip segments t]
  by (auto simp: render_line_def split: prod.splits settled.splits)

lemma typeChar_skip_from:
  "i \<le> length str \<Longrightarrow> t \<le> k \<Longrightarrow> k - t \<le> length str - i \<Longrightarrow>
     snd (snd (typeChar str (skip_from k) t i el)) = k"
proof (induction str "skip_from k" t i el rule: typeChar.induct)
  case (1 str t i el)
  show ?case
  proof (cases "k \<le> t")
    case True
    with "1.prems" have "k = t" by simp
    then show ?thesis by (simp add: typeChar.simps skip_from_def)
  next
    case False
    with "1.prems" have lt: "i < length str" by simp
    have ns: "\<not> skip_from k t" using False by (simp add: skip_from_def)
    from "1.hyps"[OF ns lt] "1.prems" False
    have "snd (snd (typeChar str (skip_from k) (t + 1) (i + 1)
             (el\<lparr>textContent := textContent el @ [str ! i]\<rparr>))) = k"
      by simp
    then show ?thesis using ns lt by (subst typeChar.simps) simp
  qed
qed

lemma typeWriter_skip_from:
  "snd (snd (typeWriter element str (skip_from (t + min d (length str))) t))
     = t + min d (length str)"
proof (cases "min d (length str) = 0")
  case True
  then show ?thesis by (simp add: typeWriter_def skip_from_def)
next
  case False
  then have "\<not> skip_from (t + min d (length str)) t" by (simp add: skip_from_def)
  then show ?thesis
    using typeChar_skip_from[of 0 str t "t + min d (length str)"
             "element\<lparr>cursorActive := True, textContent := []\<rparr>"]
    by (simp add: typeWriter_def)
qed

text \<open>
  C7. Whatever the skip flag does while a line step is animated (\<open>shouldSkip\<close> is any
  schedule of the flag over the turns of the event loop, so also one that becomes true in
  the middle of a segment), the line step resolves, every span of the line holds the full
  text of its segment, and no span keeps the cursor class. For a single typewriter run and
  a flag that is set \<open>d\<close> turns after the start and stays set (\<open>d\<close> capped by the length of
  the text): the run resolves in that very turn, with the full text.
\<close>

theorem skip_completes_line:
  "map textContent (fst (render_line False segments shouldSkip t)) = map seg_text segments
   \<and> map cursorActive (fst (render_line False segments shouldSkip t))
       = map (\<lambda>_. False) segments
   \<and> fst (snd (render_line False segments shouldSkip t)) = Resolved
   \<and> textContent (fst (typeWriter element str (skip_from (t + min d (length str))) t)) = str
   \<and> \<not> cursorActive (fst (typeWriter element str (skip_from (t + min d (length str))) t))
   \<and> fst (snd (typeWriter element str (skip_from (t + min d (length str))) t)) = Resolved
   \<and> snd (snd (typeWriter element str (skip_from (t + min d (length str))) t))
       = t + min d (length str)"
  using render_line_completes[of segments shouldSkip t]
    typeWriter_completes[of element str "skip_from (t + min d (length str))" t]
    typeWriter_skip_from[of element str t d]
  by simp

section \<open>Properties of the wizard\<close>

text \<open>
  C8. On a multi-choice question whose answer already holds \<open>maxChoices\<close> selections (or
  more), clicking a checkbox that is not checked changes nothing: the wizard state after
  the click is the state before it, so the stored answer array is the same and the
  checkbox is unchecked again. The listener has no failing branch.
\<close>

theorem checking_beyond_maxChoices_is_noop:
  assumes "i < length (boxes w)" and "\<not> checked (boxes w ! i)"
    and "length (capabilities (wizard_answers w)) \<ge> maxChoices question"
  shows "click_checkbox question i w = w
     \<and> capabilities (wizard_answers (click_checkbox question i w))
         = capabilities (wizard_answers w)
     \<and> \<not> checked (boxes (click_checkbox question i w) ! i)"
proof -
  have e: "(boxes w ! i)\<lparr>checked := False\<rparr> = boxes w ! i"
    using assms(2) by simp
  have l: "(boxes w)[i := (boxes w ! i)\<lparr>checked := False\<rparr>] = boxes w"
    unfolding e by (rule list_update_id)
  have "click_checkbox question i w
          = w\<lparr>boxes := (boxes w)[i := (boxes w ! i)\<lparr>checked := False\<rparr>]\<rparr>"
    using assms by (simp add: click_checkbox_def checkbox_change_def Let_def)
  also have "\<dots> = w" unfolding l by simp
  finally have "click_checkbox question i w = w" .
  then show ?thesis using assms by simp
qed

theorem checking_beyond_maxChoices_is_noop_witness:
  "3 < length (boxes three_selected) \<and> \<not> checked (boxes three_selected ! 3)
   \<and> maxChoices capabilities_question \<le> length (capabilities (wizard_answers three_selected))
   \<and> capabilities (wizard_answers three_selected)
       = [''Writing & Brainstorming'', ''Coding & Technical Problems'', ''Research & Learning'']
   \<and> click_checkbox capabilities_question 3 three_selected = three_selected
   \<and> capabilities (wizard_answers (click_checkbox capabilities_question 3 three_selected))
       = [''Writing & Brainstorming'', ''Coding & Technical Problems'', ''Research & Learning'']
   \<and> \<not> checked (boxes (click_checkbox capabilities_question 3 three_selected) ! 3)"
proof -
  have h1: "3 < length (boxes three_selected)"
    by code_simp
  have h2: "\<not> checked (boxes three_selected ! 3)"
    by code_simp
  have h3: "maxChoices capabilities_question
              \<le> length (capabilities (wizard_answers three_selected))"
    by code_simp
  have h4: "capabilities (wizard_answers three_selected)
       = [''Writing & Brainstorming'', ''Coding & Technical Problems'', ''Research & Learning'']"
    by code_simp
  from checking_beyond_maxChoices_is_noop[OF h1 h2 h3]
  show ?thesis using h1 h2 h3 h4 by simp
qed

lemma styleMap_last:
  "map_of styleMap k = Some t \<Longrightarrow> t \<noteq> [] \<and> last t = CHR ''.''"
  by (auto simp: styleMap_def split: if_splits)

lemma capabilitiesClause_last:
  "capabilitiesClause caps \<noteq> [] \<Longrightarrow> last (capabilitiesClause caps) = CHR ''.''"
  by (simp add: capabilitiesClause_def Let_def split: if_splits)


lemma generateSystemPrompt_shape:
  "\<exists>pre post. generateSystemPrompt a = pre @ capabilitiesClause (capabilities a) @ post"
proof -
  define A where "A = (if trim (preferred_name (identity a)) \<noteq> []
                       then '' for '' @ trim (preferred_name (identity a)) else [])"
  define B where "B = (case map_of domainMap (domain a) of
                         None \<Rightarrow> [] | Some d \<Rightarrow> '', '' @ d)"
  define S where "S = (case map_of styleMap (style a) of
                         None \<Rightarrow> [] | Some t \<Rightarrow> ''\<newline>\<newline>'' @ t)"
  define C where "C = capabilitiesClause (capabilities a)"
  define G where "G = (if trim (custom a) \<noteq> []
                       then ''\<newline>\<newline>Additional guidance: '' @ trim (custom a) else [])"
  define P where "P = ''You are an AI assistant'' @ A @ B @ ''.'' @ S @ C @ G"
  have gen: "generateSystemPrompt a = trim P"
    by (simp add: generateSystemPrompt_def Let_def P_def A_def B_def S_def C_def G_def)
  have dot: "\<not> isWhiteSpace CHR ''.''" by (simp add: isWhiteSpace_def)
  have ne: "P \<noteq> []" by (simp add: P_def)
  have hd: "\<not> isWhiteSpace (hd P)" by (simp add: P_def isWhiteSpace_def)
  have lastS: "S \<noteq> [] \<Longrightarrow> last S = CHR ''.''"
    using styleMap_last[of "style a"] by (auto simp: S_def split: option.splits)
  have lastC: "C \<noteq> [] \<Longrightarrow> last C = CHR ''.''"
    unfolding C_def by (rule capabilitiesClause_last)
  have lastG: "G \<noteq> [] \<Longrightarrow> \<not> isWhiteSpace (last G)"
    using last_trim[of "custom a"] by (auto simp: G_def split: if_splits)
  have "\<not> isWhiteSpace (last P)"
  proof (cases "G = []")
    case False
    then show ?thesis using lastG by (simp add: P_def)
  next
    case G: True
    show ?thesis
    proof (cases "C = []")
      case False
      then show ?thesis using lastC G dot by (simp add: P_def)
    next
      case C: True
      show ?thesis
      proof (cases "S = []")
        case False
        then show ?thesis using lastS G C dot by (simp add: P_def)
      next
        case True
        then show ?thesis using G C dot by (simp add: P_def)
      qed
    qed
  qed
  with ne hd have "trim P = P" by (rule trim_id)
  with gen have "generateSystemPrompt a
      = (''You are an AI assistant'' @ A @ B @ ''.'' @ S) @ capabilitiesClause (capabilities a) @ G"
    by (simp add: P_def C_def)
  then show ?thesis by blast
qed

lemma clause_in_prompt:
  assumes "capabilitiesClause (capabilities a) = ''\<newline>\<newline>'' @ sentence"
  shows "sublist sentence (generateSystemPrompt a)"
proof -
  from generateSystemPrompt_shape[of a] obtain pre post
    where "generateSystemPrompt a = pre @ capabilitiesClause (capabilities a) @ post" by blast
  with assms have "generateSystemPrompt a = (pre @ ''\<newline>\<newline>'') @ sentence @ post" by simp
  then show ?thesis unfolding sublist_def by blast
qed

text \<open>
  C4. The prompt generated from an answer set contains the capabilities sentence in the
  stated grammar: for one capability "You specialize in <cap>." with the capability
  lowercased; for two "You excel at <a> and <b>."; for three or more the lowercased items
  joined by ", " with ", and " before the last (Oxford comma), so that Coding, Research,
  Writing give "You excel at coding, research, and writing."
\<close>

theorem capabilities_sentence_grammar:
  "(capabilities a = [c] \<longrightarrow>
      sublist (''You specialize in '' @ toLowerCase c @ ''.'') (generateSystemPrompt a))
   \<and> (capabilities a = [c1, c2] \<longrightarrow>
      sublist (''You excel at '' @ toLowerCase c1 @ '' and '' @ toLowerCase c2 @ ''.'')
        (generateSystemPrompt a))
   \<and> (capabilities a = [''Coding'', ''Research'', ''Writing''] \<longrightarrow>
      sublist ''You excel at coding, research, and writing.'' (generateSystemPrompt a))
   \<and> (3 \<le> length (capabilities a) \<longrightarrow>
      sublist (''You excel at '' @ join '', '' (map toLowerCase (butlast (capabilities a)))
               @ '', and '' @ toLowerCase (last (capabilities a)) @ ''.'')
        (generateSystemPrompt a))"
proof (intro conjI impI)
  assume "capabilities a = [c]"
  then show "sublist (''You specialize in '' @ toLowerCase c @ ''.'') (generateSystemPrompt a)"
    by (intro clause_in_prompt) (simp add: capabilitiesClause_def)
next
  assume "capabilities a = [c1, c2]"
  then show "sublist (''You excel at '' @ toLowerCase c1 @ '' and '' @ toLowerCase c2 @ ''.'')
        (generateSystemPrompt a)"
    by (intro clause_in_prompt) (simp add: capabilitiesClause_def)
next
  assume "capabilities a = [''Coding'', ''Research'', ''Writing'']"
  then show "sublist ''You excel at coding, research, and writing.'' (generateSystemPrompt a)"
    by (intro clause_in_prompt)
       (simp add: capabilitiesClause_def toLowerCase_def toLowerChar_def isUpperChar_def)
next
  assume n: "3 \<le> length (capabilities a)"
  then have ne: "capabilities a \<noteq> []" by auto
  show "sublist (''You excel at '' @ join '', '' (map toLowerCase (butlast (capabilities a)))
               @ '', and '' @ toLowerCase (last (capabilities a)) @ ''.'')
        (generateSystemPrompt a)"
    using n ne by (intro clause_in_prompt) (simp add: capabilitiesClause_def Let_def map_butlast last_map)
qed


theorem capabilities_sentence_grammar_witness:
  "sublist ''You specialize in coding.'' (generateSystemPrompt (sample_answers [''Coding'']))
   \<and> sublist ''You excel at coding and research.''
        (generateSystemPrompt (sample_answers [''Coding'', ''Research'']))
   \<and> sublist ''You excel at coding, research, and writing.''
        (generateSystemPrompt (sample_answers [''Coding'', ''Research'', ''Writing'']))
   \<and> generateSystemPrompt (sample_answers [''Coding'', ''Research'', ''Writing'']) =
        ''You are an AI assistant for Rishi, exploring the possibilities of AI.\<newline>\<newline>Embrace creativity and playfulness in your responses. Make interactions engaging and fun while delivering helpful, accurate information.\<newline>\<newline>You excel at coding, research, and writing.\<newline>\<newline>Additional guidance: Be kind.''"
proof -
  have lc: "toLowerCase ''Coding'' = ''coding''" "toLowerCase ''Research'' = ''research''"
    by code_simp+
  have c1: "capabilities (sample_answers [''Coding'']) = [''Coding'']"
    and c2: "capabilities (sample_answers [''Coding'', ''Research'']) = [''Coding'', ''Research'']"
    and c3: "capabilities (sample_answers [''Coding'', ''Research'', ''Writing''])
               = [''Coding'', ''Research'', ''Writing'']"
    by (simp_all add: sample_answers_def)
  have one: "sublist ''You specialize in coding.''
               (generateSystemPrompt (sample_answers [''Coding'']))"
    using capabilities_sentence_grammar[of "sample_answers [''Coding'']" "''Coding''"] c1 lc
    by simp
  have two: "sublist ''You excel at coding and research.''
               (generateSystemPrompt (sample_answers [''Coding'', ''Research'']))"
    using capabilities_sentence_grammar
            [of "sample_answers [''Coding'', ''Research'']" _ "''Coding''" "''Research''"] c2 lc
    by simp
  have three: "sublist ''You excel at coding, research, and writing.''
        (generateSystemPrompt (sample_answers [''Coding'', ''Research'', ''Writing'']))"
    using capabilities_sentence_grammar
            [of "sample_answers [''Coding'', ''Research'', ''Writing'']"] c3
    by simp
  have full: "generateSystemPrompt (sample_answers [''Coding'', ''Research'', ''Writing'']) =
        ''You are an AI assistant for Rishi, exploring the possibilities of AI.\<newline>\<newline>Embrace creativity and playfulness in your responses. Make interactions engaging and fun while delivering helpful, accurate information.\<newline>\<newline>You excel at coding, research, and writing.\<newline>\<newline>Additional guidance: Be kind.''"
    by code_simp
  show ?thesis using one two three full by simp
qed

section \<open>Properties of the name substitution\<close>

text \<open>
  C5. With the name Rishi stored and the \<open>system_prompt\<close> track not yet marked,
  "Thanks, {name}." renders as "Thanks, Rishi." when it is the first text the track
  passes through the substitution, and as "Thanks." on a later call. But the track is
  marked by the first call whether or not its text holds the placeholder: after
  "There we go." has been processed, the first "{name}" of the track is already removed.
  So part 11 of the \<open>system_prompt\<close> track, whose first line is "There we go.", renders
  its line "You've just set your first system prompt, {name}." without the name.
\<close>

theorem name_use_spent_without_placeholder:
  "fst (replaceNamePlaceholder ''Thanks, {name}.'' (after_wizard ''Rishi'')) = ''Thanks, Rishi.''
   \<and> fst (replaceNamePlaceholder ''Thanks, {name}.''
           (snd (replaceNamePlaceholder ''Thanks, {name}.'' (after_wizard ''Rishi''))))
       = ''Thanks.''
   \<and> fst (replaceNamePlaceholder ''Thanks, {name}.''
           (snd (replaceNamePlaceholder ''There we go.'' (after_wizard ''Rishi''))))
       = ''Thanks.''
   \<and> steps (fst (processPartWithName system_prompt_part_11 (after_wizard ''Rishi''))) =
        [Line False [\<lparr>seg_text = ''There we go.'', className = None\<rparr>],
         OtherStep None None None None,
         Line False [\<lparr>seg_text = ''You've just set your first system prompt.'',
                      className = None\<rparr>],
         Line False [\<lparr>seg_text = ''From now on, that's the script I'll follow when we talk.'',
                      className = None\<rparr>]]"
  by code_simp

end
